theory Spec2Isabelle
  imports Main "HOL-Library.Char_ord" "HOL-Library.List_Lexorder"
begin

section \<open>Errors and messages\<close>

text \<open>
  The framework reports failures through two streams: \<^verbatim>\<open>user_assert\<close> / \<^verbatim>\<open>user_error\<close>
  (a mistake of the generator author or of the build invocation) and
  \<^verbatim>\<open>internal_assert\<close> / \<^verbatim>\<open>internal_error\<close> (a broken contract of the framework).
  Both end the operation in progress. A message is what the code streams with \<^verbatim>\<open><<\<close>,
  kept as the list of streamed items: string literals and names, numbers, expressions
  and types. An expression is \<open>'e option\<close>, \<open>None\<close> being the undefined \<^verbatim>\<open>Expr\<close>.
\<close>

datatype ('e, 't) tok = S string | N int | E "'e option" | T 't

datatype ('e, 't) error = UserError "('e, 't) tok list" | InternalError "('e, 't) tok list"

section \<open>Identifier validator\<close>

text \<open>\<^verbatim>\<open>is_alpha\<close>, \<^verbatim>\<open>is_alnum\<close> (which includes the underscore) and \<^verbatim>\<open>is_valid_name\<close>.
  Characters are compared by their byte value.\<close>

definition is_alpha :: "char \<Rightarrow> bool" where
  "is_alpha c = ((CHR ''A'' \<le> c \<and> c \<le> CHR ''Z'') \<or> (CHR ''a'' \<le> c \<and> c \<le> CHR ''z''))"

definition is_alnum :: "char \<Rightarrow> bool" where
  "is_alnum c = (is_alpha c \<or> c = CHR ''_'' \<or> (CHR ''0'' \<le> c \<and> c \<le> CHR ''9''))"

text \<open>The loop \<^verbatim>\<open>for (size_t i = 1; i < n.size(); ++i)\<close> of \<^verbatim>\<open>is_valid_name\<close>,
  started at index \<open>i\<close>.\<close>

function is_valid_name_loop :: "string \<Rightarrow> nat \<Rightarrow> bool" where
  "is_valid_name_loop n i =
     (if i < length n then
        (if \<not> is_alnum (n ! i) then False
         else if n ! i = CHR ''_'' \<and> n ! (i - 1) = CHR ''_'' then False
         else is_valid_name_loop n (Suc i))
      else True)"
  by pat_completeness auto
termination
  by (relation "measure (\<lambda>(n, i). length n - i)") auto

declare is_valid_name_loop.simps [simp del]

definition is_valid_name :: "string \<Rightarrow> bool" where
  "is_valid_name n =
     (if n = [] then False
      else if \<not> is_alpha (n ! 0) then False
      else is_valid_name_loop n 1)"

text \<open>The validator as the specification words it: a leading ASCII letter, then only
  letters, digits and underscores, and nowhere two underscores in a row.\<close>

definition is_letter :: "char \<Rightarrow> bool" where
  "is_letter c = (c \<in> set ''ABCDEFGHIJKLMNOPQRSTUVWXYZabcdefghijklmnopqrstuvwxyz'')"

definition is_digit :: "char \<Rightarrow> bool" where
  "is_digit c = (c \<in> set ''0123456789'')"

definition spec_valid_name :: "string \<Rightarrow> bool" where
  "spec_valid_name n =
     (n \<noteq> [] \<and> is_letter (hd n) \<and>
      list_all (\<lambda>c. is_letter c \<or> is_digit c \<or> c = CHR ''_'') (tl n) \<and>
      \<not> (\<exists>i. Suc i < length n \<and> n ! i = CHR ''_'' \<and> n ! Suc i = CHR ''_''))"

section \<open>Cross-build consistency tracker\<close>

text \<open>
  \<^verbatim>\<open>ValueTracker\<close> keeps, per parameter name, one list of observed values for each
  position of the constraint tuple (\<^verbatim>\<open>std::map<std::string, std::vector<std::vector<Expr>>>\<close>)
  and the bound \<^verbatim>\<open>max_unique_values\<close> given to its constructor (2 unless stated).
  \<^verbatim>\<open>values_history[name]\<close> creates an empty history for a name not seen before.
\<close>

record 'e value_tracker =
  values_history :: "string \<rightharpoonup> 'e option list list"
  max_unique_values :: nat

definition history_of :: "'e value_tracker \<Rightarrow> string \<Rightarrow> 'e option list list" where
  "history_of tr name = (case values_history tr name of None \<Rightarrow> [] | Some h \<Rightarrow> h)"

text \<open>
  The two tests of the loop body that end in \<^verbatim>\<open>continue\<close>: both values defined and
  \<^verbatim>\<open>can_prove(newval == oldval)\<close>, or both undefined. The prover \<^verbatim>\<open>can_prove\<close> of the
  simplifier is a parameter, applied to the new and the old value. A failure ends the
  call: \<open>track_values\<close> returns the error in place of the tracker.
\<close>

definition same_value :: "('e \<Rightarrow> 'e \<Rightarrow> bool) \<Rightarrow> 'e option \<Rightarrow> 'e option \<Rightarrow> bool" where
  "same_value can_prove_eq oldval newval =
     (case (oldval, newval) of
        (Some ov, Some nv) \<Rightarrow> can_prove_eq nv ov
      | (None, None) \<Rightarrow> True
      | _ \<Rightarrow> False)"

definition too_many_message :: "nat \<Rightarrow> nat \<Rightarrow> 'e option list \<Rightarrow> ('e, 't) tok list" where
  "too_many_message i m hist_i =
     [S ''Saw too many unique values in ValueTracker['', N (int i), S '']; '',
      S ''expected a maximum of '', N (int m), S '':\<newline>'']
     @ concat (map (\<lambda>e. [S ''    '', E e, S ''\<newline>'']) hist_i)"

text \<open>The loop \<^verbatim>\<open>for (size_t i = 0; i < values.size(); ++i)\<close> over the positions,
  started at position \<open>i\<close>, on the history of one name.\<close>

function track_values_loop ::
  "('e \<Rightarrow> 'e \<Rightarrow> bool) \<Rightarrow> nat \<Rightarrow> 'e option list \<Rightarrow> 'e option list list \<Rightarrow> nat
     \<Rightarrow> ('e, 't) error + 'e option list list" where
  "track_values_loop can_prove_eq m values history i =
     (if i < length values then
        (let oldval = last (history ! i); newval = values ! i in
         if same_value can_prove_eq oldval newval
         then track_values_loop can_prove_eq m values history (Suc i)
         else
           (let history' = history[i := history ! i @ [newval]] in
            if length (history' ! i) > m
            then Inl (UserError (too_many_message i m (history' ! i)))
            else track_values_loop can_prove_eq m values history' (Suc i)))
      else Inr history)"
  by pat_completeness auto
termination
  by (relation "measure (\<lambda>(c, m, values, history, i). length values - i)") auto

declare track_values_loop.simps [simp del]

definition track_values ::
  "('e \<Rightarrow> 'e \<Rightarrow> bool) \<Rightarrow> 'e value_tracker \<Rightarrow> string \<Rightarrow> 'e option list
     \<Rightarrow> ('e, 't) error + 'e value_tracker" where
  "track_values can_prove_eq tr name values =
     (let history = history_of tr name in
      if history = [] then
        Inr (tr\<lparr>values_history := (values_history tr)(name \<mapsto> map (\<lambda>v. [v]) values)\<rparr>)
      else if length history \<noteq> length values then
        Inl (InternalError [S ''Expected values of size '', N (int (length history)),
                            S '' but saw size '', N (int (length values)),
                            S '' for name '', S name, S ''\<newline>''])
      else
        (case track_values_loop can_prove_eq (max_unique_values tr) values history 0 of
           Inl e \<Rightarrow> Inl e
         | Inr history' \<Rightarrow> Inr (tr\<lparr>values_history := (values_history tr)(name \<mapsto> history')\<rparr>)))"

text \<open>Every history that \<^verbatim>\<open>track_values\<close> builds holds at least one value at each
  position, which is what \<^verbatim>\<open>history[i].back()\<close> relies on.\<close>

definition positions_filled :: "'e option list list \<Rightarrow> bool" where
  "positions_filled history = list_all (\<lambda>p. p \<noteq> []) history"

definition ValueTracker :: "nat \<Rightarrow> 'e value_tracker" where
  "ValueTracker m = \<lparr>values_history = Map.empty, max_unique_values = m\<rparr>"

section \<open>Phases of a generator\<close>

datatype Phase = Created | InputsSet | GenerateCalled | ScheduleCalled

text \<open>The value of each enumerator, which is what \<^verbatim>\<open><\<close> and \<^verbatim>\<open>>=\<close> on phases compare.\<close>

fun phase_value :: "Phase \<Rightarrow> nat" where
  "phase_value Created = 0"
| "phase_value InputsSet = 1"
| "phase_value GenerateCalled = 2"
| "phase_value ScheduleCalled = 3"

section \<open>Inputs, outputs and generator params\<close>

datatype IOKind = Scalar | Function | Buffer

text \<open>What the code reads of a \<^verbatim>\<open>Func\<close>: whether it is defined, its output types and
  its dimensionality. The element type \<^verbatim>\<open>Type\<close> is a parameter \<open>'t\<close>.\<close>

record 't func =
  func_defined :: bool
  func_output_types :: "'t list"
  func_dimensions :: int

text \<open>
  \<^verbatim>\<open>GIOBase\<close>; the field \<open>gio_x\<close> is the member \<^verbatim>\<open>x_\<close> of the class. An array size or
  a dimensionality of \<open>-1\<close> is undefined, as is an empty list of types. \<^verbatim>\<open>is_array()\<close>
  and \<^verbatim>\<open>input_or_output()\<close> are virtual and answered by the concrete subclass; the
  record holds their answers. The back-pointer \<^verbatim>\<open>generator\<close> is \<open>None\<close> when null; \<open>'g\<close>
  is an address where identity is compared and the generator itself where it is
  dereferenced.
\<close>

record ('e, 't, 'g) gio_base =
  gio_array_size :: int
  gio_name :: string
  gio_kind :: IOKind
  gio_types :: "'t list"
  gio_dims :: int
  gio_funcs :: "'t func list"
  gio_exprs :: "'e option list"
  gio_generator :: "'g option"
  gio_is_array :: bool
  gio_input_or_output :: string

datatype SyntheticParamType = Type | Dim | ArraySize

text \<open>
  \<^verbatim>\<open>GeneratorParamBase\<close>: its name and its back-pointer. A synthetic param also carries
  what \<^verbatim>\<open>GeneratorParam_Synthetic::make\<close> is given: which property it exposes, the name
  of its input or output, and whether that property is already defined.
\<close>

record 'g generator_param_base =
  gp_name :: string
  gp_generator :: "'g option"
  gp_synthetic :: "(SyntheticParamType \<times> string \<times> bool) option"

definition is_synthetic_param :: "'g generator_param_base \<Rightarrow> bool" where
  "is_synthetic_param p = (gp_synthetic p \<noteq> None)"

text \<open>What \<^verbatim>\<open>ParamInfo\<close> reads of a legacy \<^verbatim>\<open>Param<>\<close> or \<^verbatim>\<open>ImageParam\<close>.\<close>

record registered_parameter =
  rp_defined :: bool
  rp_is_explicit_name :: bool
  rp_name :: string

subsection \<open>Accessors and inference of \<^verbatim>\<open>GIOBase\<close>\<close>

definition array_size_defined :: "('e, 't, 'g) gio_base \<Rightarrow> bool" where
  "array_size_defined g = (gio_array_size g \<noteq> -1)"

text \<open>\<^verbatim>\<open>array_size()\<close> returns \<^verbatim>\<open>(size_t) array_size_\<close>: with a \<^verbatim>\<open>size_t\<close> of 64 bits a negative
  size other than \<open>-1\<close> wraps around.\<close>

definition array_size :: "('e, 't, 'g) gio_base \<Rightarrow> ('e, 't) error + nat" where
  "array_size g =
     (if array_size_defined g then Inr (nat (gio_array_size g mod 2 ^ 64))
      else Inl (UserError [S ''ArraySize is unspecified for '', S (gio_input_or_output g),
              S [CHR 0x27], S (gio_name g),
              S ([CHR 0x27] @ ''; you need to explicitly set it via the resize() method or by setting ''
                 @ [CHR 0x27]),
              S (gio_name g), S (''.size'' @ [CHR 0x27] @ '' in your build rules.'')]))"

definition types_defined :: "('e, 't, 'g) gio_base \<Rightarrow> bool" where
  "types_defined g = (gio_types g \<noteq> [])"

definition dims_defined :: "('e, 't, 'g) gio_base \<Rightarrow> bool" where
  "dims_defined g = (gio_dims g \<noteq> -1)"

text \<open>The loop of \<^verbatim>\<open>check_matching_types\<close> over the positions of the observed types,
  started at position \<open>i\<close>. It runs once the two lists are known to have one length.\<close>

function check_matching_types_loop ::
  "string \<Rightarrow> 't list \<Rightarrow> 't list \<Rightarrow> nat \<Rightarrow> ('e, 't) error + unit" where
  "check_matching_types_loop n ts t i =
     (if i < length t then
        (if ts ! i = t ! i then check_matching_types_loop n ts t (Suc i)
         else Inl (UserError [S ''Type mismatch for '', S n, S '': expected '', T (ts ! i),
                              S '' saw '', T (t ! i)]))
      else Inr ())"
  by pat_completeness auto
termination
  by (relation "measure (\<lambda>(n, ts, t, i). length t - i)") auto

declare check_matching_types_loop.simps [simp del]

text \<open>
  \<^verbatim>\<open>check_matching_types\<close>: in its first branch the types are defined, so the calls of
  \<^verbatim>\<open>types()\<close> there return \<^verbatim>\<open>types_\<close> without inferring or failing.
\<close>

definition check_matching_types ::
  "('e, 't, 'g) gio_base \<Rightarrow> 't list \<Rightarrow> ('e, 't) error + ('e, 't, 'g) gio_base" where
  "check_matching_types g t =
     (if types_defined g then
        (if length (gio_types g) \<noteq> length t then
           Inl (UserError [S ''Type mismatch for '', S (gio_name g), S '': expected '',
                           N (int (length (gio_types g))), S '' types but saw '', N (int (length t))])
         else (case check_matching_types_loop (gio_name g) (gio_types g) t 0 of
                 Inl e \<Rightarrow> Inl e
               | Inr _ \<Rightarrow> Inr g))
      else Inr (g\<lparr>gio_types := t\<rparr>))"

text \<open>\<^verbatim>\<open>check_matching_dims\<close>: likewise \<^verbatim>\<open>dims()\<close> returns \<^verbatim>\<open>dims_\<close> in the first branch.\<close>

definition check_matching_dims ::
  "('e, 't, 'g) gio_base \<Rightarrow> int \<Rightarrow> ('e, 't) error + ('e, 't, 'g) gio_base" where
  "check_matching_dims g d =
     (if \<not> d \<ge> 0 then Inl (InternalError [])
      else if dims_defined g then
        (if gio_dims g = d then Inr g
         else Inl (UserError [S ''Dimensions mismatch for '', S (gio_name g), S '': expected '',
                              N (gio_dims g), S '' saw '', N d]))
      else Inr (g\<lparr>gio_dims := d\<rparr>))"

text \<open>\<^verbatim>\<open>types()\<close>: with the types undefined and exactly one defined \<^verbatim>\<open>Func\<close> bound, the
  types of that \<^verbatim>\<open>Func\<close> are taken over first. The result is the list of types and the
  entity, whose \<^verbatim>\<open>types_\<close> is mutable.\<close>

definition types ::
  "('e, 't, 'g) gio_base \<Rightarrow> ('e, 't) error + ('t list \<times> ('e, 't, 'g) gio_base)" where
  "types g =
     (case (if \<not> types_defined g then
              (let f = gio_funcs g in
               if length f = 1 \<and> func_defined (f ! 0)
               then check_matching_types g (func_output_types (f ! 0))
               else Inr g)
            else Inr g) of
        Inl e \<Rightarrow> Inl e
      | Inr g' \<Rightarrow>
          if types_defined g' then Inr (gio_types g', g')
          else Inl (UserError [S ''Type is not defined for '', S (gio_input_or_output g'),
                 S ('' '' @ [CHR 0x27]), S (gio_name g'),
                 S ([CHR 0x27] @ ''; you may need to specify '' @ [CHR 0x27]), S (gio_name g'),
                 S (''.type'' @ [CHR 0x27] @ '' as a GeneratorParam.\<newline>'')]))"

text \<open>\<^verbatim>\<open>funcs()\<close> asserts that one \<^verbatim>\<open>Func\<close> per array element is bound and no expression.\<close>

definition funcs :: "('e, 't, 'g) gio_base \<Rightarrow> ('e, 't) error + 't func list" where
  "funcs g =
     (case array_size g of
        Inl e \<Rightarrow> Inl e
      | Inr n \<Rightarrow> if length (gio_funcs g) = n \<and> gio_exprs g = [] then Inr (gio_funcs g)
                 else Inl (InternalError []))"

text \<open>\<^verbatim>\<open>dims()\<close>: the same inference for the dimensionality, reading the bound
  \<^verbatim>\<open>Func\<close> through \<^verbatim>\<open>funcs()\<close>.\<close>

definition dims ::
  "('e, 't, 'g) gio_base \<Rightarrow> ('e, 't) error + (int \<times> ('e, 't, 'g) gio_base)" where
  "dims g =
     (case (if \<not> dims_defined g then
              (let f = gio_funcs g in
               if length f = 1 \<and> func_defined (f ! 0)
               then (case funcs g of
                       Inl e \<Rightarrow> Inl e
                     | Inr fs \<Rightarrow> check_matching_dims g (func_dimensions (fs ! 0)))
               else Inr g)
            else Inr g) of
        Inl e \<Rightarrow> Inl e
      | Inr g' \<Rightarrow>
          if dims_defined g' then Inr (gio_dims g', g')
          else Inl (UserError [S ''Dimensions are not defined for '', S (gio_input_or_output g'),
                 S ('' '' @ [CHR 0x27]), S (gio_name g'),
                 S ([CHR 0x27] @ ''; you may need to specify '' @ [CHR 0x27]), S (gio_name g'),
                 S (''.dim'' @ [CHR 0x27] @ '' as a GeneratorParam.\<newline>'')]))"

section \<open>Schema builder\<close>

text \<open>
  \<^verbatim>\<open>GeneratorBase::ParamInfo\<close>. Back-pointers are addresses here. The four lists that
  \<^verbatim>\<open>ObjectInstanceRegistry::instances_in_range\<close> returns for the generator (legacy
  params, inputs, outputs, generator params) are arguments, a null pointer being \<open>None\<close>.
  The vectors of the class hold pointers to the members; the model holds the members as
  they are when the constructor ends.
\<close>

record ('e, 't) param_info =
  filter_params :: "registered_parameter list"
  filter_inputs :: "('e, 't, nat) gio_base list"
  filter_outputs :: "('e, 't, nat) gio_base list"
  generator_params :: "nat generator_param_base list"
  generator_params_by_name :: "string \<rightharpoonup> nat generator_param_base"
  owned_synthetic_params :: "nat generator_param_base list"

text \<open>The first loop: legacy params. The state is the set of names seen and the
  params accepted so far.\<close>

fun scan_filter_params ::
  "registered_parameter option list \<Rightarrow> string set \<times> registered_parameter list
     \<Rightarrow> ('e, 't) error + (string set \<times> registered_parameter list)" where
  "scan_filter_params [] st = Inr st"
| "scan_filter_params (v # vf) (names, fps) =
     (case v of
        None \<Rightarrow> Inl (InternalError [])
      | Some rp \<Rightarrow>
          if \<not> rp_defined rp then Inl (InternalError [])
          else if \<not> rp_is_explicit_name rp then
            Inl (UserError [S ''Params in Generators must have explicit names: '', S (rp_name rp)])
          else if \<not> is_valid_name (rp_name rp) then
            Inl (UserError [S ''Invalid Param name: '', S (rp_name rp)])
          else if rp_name rp \<in> names then
            Inl (UserError [S ''Duplicate Param name: '', S (rp_name rp)])
          else scan_filter_params vf (insert (rp_name rp) names, fps @ [rp]))"

text \<open>The lambda \<^verbatim>\<open>add_synthetic_params\<close>: the synthetic params of one input or output,
  named after it. A new param has no back-pointer yet.\<close>

definition add_synthetic_params ::
  "('e, 't, nat) gio_base \<Rightarrow> nat generator_param_base list" where
  "add_synthetic_params gio =
     (let n = gio_name gio in
      (if gio_kind gio \<noteq> Scalar then
         [\<lparr>gp_name = n @ ''.type'', gp_generator = None,
           gp_synthetic = Some (Type, n, types_defined gio)\<rparr>,
          \<lparr>gp_name = n @ ''.dim'', gp_generator = None,
           gp_synthetic = Some (Dim, n, dims_defined gio)\<rparr>]
       else [])
      @ (if gio_is_array gio then
           [\<lparr>gp_name = n @ ''.size'', gp_generator = None,
             gp_synthetic = Some (ArraySize, n, array_size_defined gio)\<rparr>]
         else []))"

text \<open>The second and third loop: inputs, then outputs. They differ in the word of their
  messages only. The state is the names seen, the entities accepted and the synthetic
  params made so far.\<close>

fun scan_gios ::
  "string \<Rightarrow> nat \<Rightarrow> ('e, 't, nat) gio_base option list
     \<Rightarrow> string set \<times> ('e, 't, nat) gio_base list \<times> nat generator_param_base list
     \<Rightarrow> ('e, 't) error + (string set \<times> ('e, 't, nat) gio_base list \<times> nat generator_param_base list)" where
  "scan_gios what generator [] st = Inr st"
| "scan_gios what generator (v # vi) (names, gios, syn) =
     (case v of
        None \<Rightarrow> Inl (InternalError [])
      | Some io \<Rightarrow>
          if \<not> is_valid_name (gio_name io) then
            Inl (UserError [S (''Invalid '' @ what @ '' name: (''), S (gio_name io), S '')\<newline>''])
          else if gio_name io \<in> names then
            Inl (UserError [S (''Duplicate '' @ what @ '' name: ''), S (gio_name io)])
          else if \<not> (gio_generator io = None \<or> gio_generator io = Some generator) then
            Inl (InternalError [])
          else
            (let io' = io\<lparr>gio_generator := Some generator\<rparr> in
             scan_gios what generator vi
               (insert (gio_name io) names, gios @ [io'], syn @ add_synthetic_params io')))"

text \<open>The fourth loop: generator params, appended after the synthetic ones.\<close>

fun scan_generator_params ::
  "nat \<Rightarrow> nat generator_param_base option list
     \<Rightarrow> string set \<times> nat generator_param_base list
     \<Rightarrow> ('e, 't) error + (string set \<times> nat generator_param_base list)" where
  "scan_generator_params generator [] st = Inr st"
| "scan_generator_params generator (v # vg) (names, gps) =
     (case v of
        None \<Rightarrow> Inl (InternalError [])
      | Some param \<Rightarrow>
          if \<not> is_valid_name (gp_name param) then
            Inl (UserError [S ''Invalid GeneratorParam name: '', S (gp_name param)])
          else if gp_name param \<in> names then
            Inl (UserError [S ''Duplicate GeneratorParam name: '', S (gp_name param)])
          else if \<not> (gp_generator param = None \<or> gp_generator param = Some generator) then
            Inl (InternalError [])
          else scan_generator_params generator vg
                 (insert (gp_name param) names, gps @ [param\<lparr>gp_generator := Some generator\<rparr>]))"

text \<open>The loop \<^verbatim>\<open>generator_params_by_name[g->name] = g\<close>: a later param of the same
  name replaces an earlier one.\<close>

fun index_by_name ::
  "nat generator_param_base list \<Rightarrow> (string \<rightharpoonup> nat generator_param_base)
     \<Rightarrow> (string \<rightharpoonup> nat generator_param_base)" where
  "index_by_name [] m = m"
| "index_by_name (g # gs) m = index_by_name gs (m(gp_name g \<mapsto> g))"

text \<open>The last loop sets the back-pointer of every synthetic param. The synthetic params
  are the same objects in \<^verbatim>\<open>owned_synthetic_params\<close>, in \<^verbatim>\<open>generator_params\<close> and in the
  index, so the model sets it in all three.\<close>

definition own :: "nat \<Rightarrow> nat generator_param_base \<Rightarrow> nat generator_param_base" where
  "own generator g = (if is_synthetic_param g then g\<lparr>gp_generator := Some generator\<rparr> else g)"

definition ParamInfo ::
  "nat \<Rightarrow> registered_parameter option list \<Rightarrow> ('e, 't, nat) gio_base option list
     \<Rightarrow> ('e, 't, nat) gio_base option list \<Rightarrow> nat generator_param_base option list
     \<Rightarrow> ('e, 't) error + ('e, 't) param_info" where
  "ParamInfo generator vf vi vo vg =
     (case scan_filter_params vf ({}, []) of
        Inl e \<Rightarrow> Inl e
      | Inr (names1, fps) \<Rightarrow>
     (case scan_gios ''Input'' generator vi (names1, [], []) of
        Inl e \<Rightarrow> Inl e
      | Inr (names2, ins, syn1) \<Rightarrow>
     (case scan_gios ''Output'' generator vo (names2, [], syn1) of
        Inl e \<Rightarrow> Inl e
      | Inr (names3, outs, syn2) \<Rightarrow>
          if length fps > 0 \<and> length ins > 0 then
            Inl (UserError [S ''Input<> may not be used with Param<> or ImageParam in Generators.\<newline>''])
          else if length fps > 0 \<and> length outs > 0 then
            Inl (UserError [S ''Output<> may not be used with Param<> or ImageParam in Generators.\<newline>''])
          else
     (case scan_generator_params generator vg (names3, syn2) of
        Inl e \<Rightarrow> Inl e
      | Inr (names4, gps) \<Rightarrow>
          (let gps' = map (own generator) gps in
           Inr \<lparr>filter_params = fps, filter_inputs = ins, filter_outputs = outs,
                generator_params = gps',
                generator_params_by_name = index_by_name gps' Map.empty,
                owned_synthetic_params = map (own generator) syn2\<rparr>)))))"

section \<open>The generator and its phase\<close>

text \<open>
  \<^verbatim>\<open>GeneratorBase\<close>: its phase, its two names, the lazily built schema, its own address
  and the members that the instance registry holds for it.
\<close>

record ('e, 't) generator_base =
  phase :: Phase
  generator_registered_name :: string
  generator_stub_name :: string
  param_info_ptr :: "('e, 't) param_info option"
  this :: nat
  member_params :: "registered_parameter option list"
  member_inputs :: "('e, 't, nat) gio_base option list"
  member_outputs :: "('e, 't, nat) gio_base option list"
  member_generator_params :: "nat generator_param_base option list"

definition param_info ::
  "('e, 't) generator_base \<Rightarrow> ('e, 't) error + (('e, 't) param_info \<times> ('e, 't) generator_base)" where
  "param_info g =
     (case param_info_ptr g of
        Some pi \<Rightarrow> Inr (pi, g)
      | None \<Rightarrow>
          (case ParamInfo (this g) (member_params g) (member_inputs g) (member_outputs g)
                  (member_generator_params g) of
             Inl e \<Rightarrow> Inl e
           | Inr pi \<Rightarrow> Inr (pi, g\<lparr>param_info_ptr := Some pi\<rparr>)))"

definition check_min_phase :: "('e, 't) generator_base \<Rightarrow> Phase \<Rightarrow> ('e, 't) error + unit" where
  "check_min_phase g expected_phase =
     (if phase_value (phase g) \<ge> phase_value expected_phase then Inr ()
      else Inl (UserError [S ''You may not do this operation at this phase.'']))"

definition check_exact_phase :: "('e, 't) generator_base \<Rightarrow> Phase \<Rightarrow> ('e, 't) error + unit" where
  "check_exact_phase g expected_phase =
     (if phase g = expected_phase then Inr ()
      else Inl (UserError [S ''You may not do this operation at this phase.'']))"

fun advance_phase ::
  "('e, 't) generator_base \<Rightarrow> Phase \<Rightarrow> ('e, 't) error + ('e, 't) generator_base" where
  "advance_phase g Created = Inl (InternalError [S ''Impossible''])"
| "advance_phase g InputsSet =
     (if phase g = Created then Inr (g\<lparr>phase := InputsSet\<rparr>) else Inl (InternalError []))"
| "advance_phase g GenerateCalled =
     (if phase g = Created \<or> phase g = InputsSet then Inr (g\<lparr>phase := GenerateCalled\<rparr>)
      else Inl (InternalError []))"
| "advance_phase g ScheduleCalled =
     (if phase g = GenerateCalled then Inr (g\<lparr>phase := ScheduleCalled\<rparr>)
      else Inl (InternalError []))"

subsection \<open>Phase checks of params and outputs\<close>

text \<open>Here the back-pointer is dereferenced: \<open>'g\<close> is the generator.\<close>

definition check_value_readable ::
  "('e, 't) generator_base generator_param_base \<Rightarrow> ('e, 't) error + unit" where
  "check_value_readable p =
     (if gp_name p = ''target'' then Inr ()
      else if gp_name p = ''auto_schedule'' then Inr ()
      else if gp_name p = ''machine_params'' then Inr ()
      else (case gp_generator p of
              Some g \<Rightarrow>
                if phase_value (phase g) \<ge> phase_value GenerateCalled then Inr ()
                else Inl (UserError [S ''The GeneratorParam \"'', S (gp_name p),
                       S ''\" cannot be read before build() or generate() is called.\<newline>''])
            | None \<Rightarrow>
                Inl (UserError [S ''The GeneratorParam \"'', S (gp_name p),
                       S ''\" cannot be read before build() or generate() is called.\<newline>''])))"

definition check_value_writable ::
  "('e, 't) generator_base generator_param_base \<Rightarrow> ('e, 't) error + unit" where
  "check_value_writable p =
     (case gp_generator p of
        None \<Rightarrow> Inr ()
      | Some g \<Rightarrow>
          if phase_value (phase g) < phase_value GenerateCalled then Inr ()
          else Inl (UserError [S ''The GeneratorParam \"'', S (gp_name p),
                 S ''\" cannot be written after build() or generate() is called.\<newline>'']))"

text \<open>\<^verbatim>\<open>GeneratorOutputBase::check_value_writable\<close>.\<close>

definition output_check_value_writable ::
  "('e, 't, ('e, 't) generator_base) gio_base \<Rightarrow> ('e, 't) error + unit" where
  "output_check_value_writable out =
     (case gio_generator out of
        Some g \<Rightarrow>
          if phase g = GenerateCalled then Inr ()
          else Inl (UserError [S ''The Output '', S (gio_name out),
                 S '' can only be set inside generate().\<newline>''])
      | None \<Rightarrow>
          Inl (UserError [S ''The Output '', S (gio_name out),
                 S '' can only be set inside generate().\<newline>'']))"

section \<open>Generator registry\<close>

text \<open>
  The table \<^verbatim>\<open>registry.factories\<close> is a \<^verbatim>\<open>std::map\<close> from names to factories: a list of
  pairs in ascending order of the names, each name once. A factory takes the context
  and returns the new generator, or \<open>None\<close> for a null pointer. The registry is one
  process-wide table; the model passes it in and returns it.
\<close>

type_synonym ('c, 'g) factories = "(string \<times> ('c \<Rightarrow> 'g option)) list"

text \<open>\<^verbatim>\<open>factories[name] = f\<close> and \<^verbatim>\<open>factories.erase(name)\<close>.\<close>

fun map_assign :: "string \<Rightarrow> 'v \<Rightarrow> (string \<times> 'v) list \<Rightarrow> (string \<times> 'v) list" where
  "map_assign k v [] = [(k, v)]"
| "map_assign k v ((k', v') # xs) =
     (if k < k' then (k, v) # (k', v') # xs
      else if k = k' then (k, v) # xs
      else (k', v') # map_assign k v xs)"

definition map_erase :: "string \<Rightarrow> (string \<times> 'v) list \<Rightarrow> (string \<times> 'v) list" where
  "map_erase k xs = filter (\<lambda>kv. fst kv \<noteq> k) xs"

definition register_factory ::
  "string \<Rightarrow> ('c \<Rightarrow> 'g option) \<Rightarrow> ('c, 'g) factories \<Rightarrow> ('e, 't) error + ('c, 'g) factories" where
  "register_factory name generator_factory factories =
     (if \<not> is_valid_name name then Inl (UserError [S ''Invalid Generator name: '', S name])
      else if map_of factories name \<noteq> None then
        Inl (InternalError [S ''Duplicate Generator name: '', S name])
      else Inr (map_assign name generator_factory factories))"

definition unregister_factory ::
  "string \<Rightarrow> ('c, 'g) factories \<Rightarrow> ('e, 't) error + ('c, 'g) factories" where
  "unregister_factory name factories =
     (if map_of factories name = None then
        Inl (InternalError [S ''Generator not found: '', S name])
      else Inr (map_erase name factories))"

definition create ::
  "string \<Rightarrow> 'c \<Rightarrow> ('c, 'g) factories \<Rightarrow> ('e, 't) error + 'g" where
  "create name context factories =
     (case map_of factories name of
        None \<Rightarrow>
          Inl (UserError ([S ''Generator not found: '', S name, S ''\<newline>'', S ''Did you mean:\<newline>'']
                          @ concat (map (\<lambda>n. [S ''    '', S (fst n), S ''\<newline>'']) factories)))
      | Some f \<Rightarrow>
          (case f context of
             None \<Rightarrow> Inl (InternalError [])
           | Some g \<Rightarrow> Inr g))"

definition enumerate_names :: "('c, 'g) factories \<Rightarrow> string list" where
  "enumerate_names factories = map fst factories"

section \<open>Schema emission\<close>

text \<open>
  \<^verbatim>\<open>emit_cpp_stub\<close> and \<^verbatim>\<open>emit_yaml\<close> open the file and construct a \<^verbatim>\<open>StubEmitter\<close> or a
  \<^verbatim>\<open>YamlEmitter\<close> from the two names and the three vectors of the schema. The model
  returns that emitter, with the path of the file, in place of the text it writes.
\<close>

datatype emitter_kind = StubEmitter | YamlEmitter

record ('e, 't) emitter =
  em_kind :: emitter_kind
  em_file :: string
  em_generator_registered_name :: string
  em_generator_stub_name :: string
  em_class_name :: string
  em_namespaces :: "string list"
  em_generator_params :: "nat generator_param_base list"
  em_inputs :: "('e, 't, nat) gio_base list"
  em_outputs :: "('e, 't, nat) gio_base list"

fun select_generator_params ::
  "'g generator_param_base list \<Rightarrow> 'g generator_param_base list" where
  "select_generator_params [] = []"
| "select_generator_params (p # ps) =
     (if gp_name p = ''target'' \<or> gp_name p = ''auto_schedule'' \<or> gp_name p = ''machine_params''
      then select_generator_params ps
      else if is_synthetic_param p then select_generator_params ps
      else p # select_generator_params ps)"

text \<open>
  The constructor of \<^verbatim>\<open>EmitterBase\<close>, which both emitters run: it keeps the generator
  params that \<^verbatim>\<open>select_generator_params\<close> selects and splits the stub name at \<^verbatim>\<open>::\<close> into
  the namespaces and the class name, dropping an empty first piece. The utility
  \<^verbatim>\<open>split_string\<close> is declared elsewhere and is an argument here.
\<close>

definition EmitterBase ::
  "(string \<Rightarrow> string \<Rightarrow> string list) \<Rightarrow> emitter_kind \<Rightarrow> string \<Rightarrow> string \<Rightarrow> string
     \<Rightarrow> nat generator_param_base list \<Rightarrow> ('e, 't, nat) gio_base list
     \<Rightarrow> ('e, 't, nat) gio_base list \<Rightarrow> ('e, 't) error + ('e, 't) emitter" where
  "EmitterBase split_string kind dest registered_name stub_name gps inputs outputs =
     (let namespaces = split_string stub_name ''::'' in
      if \<not> length namespaces \<ge> 1 then Inl (InternalError [])
      else
        (case (if namespaces ! 0 = [] then
                 (let erased = tl namespaces in
                  if \<not> length erased \<ge> 2 then Inl (InternalError []) else Inr erased)
               else Inr namespaces) of
           Inl e \<Rightarrow> Inl e
         | Inr ns \<Rightarrow>
             Inr \<lparr>em_kind = kind, em_file = dest,
                  em_generator_registered_name = registered_name,
                  em_generator_stub_name = stub_name,
                  em_class_name = last ns,
                  em_namespaces = butlast ns,
                  em_generator_params = select_generator_params gps,
                  em_inputs = inputs,
                  em_outputs = outputs\<rparr>))"

definition emit_cpp_stub ::
  "(string \<Rightarrow> string \<Rightarrow> string list) \<Rightarrow> ('e, 't) generator_base \<Rightarrow> string
     \<Rightarrow> ('e, 't) error + (('e, 't) emitter \<times> ('e, 't) generator_base)" where
  "emit_cpp_stub split_string g stub_file_path =
     (if \<not> (generator_registered_name g \<noteq> [] \<and> generator_stub_name g \<noteq> []) then
        Inl (UserError [S ''Generator has no name.\<newline>''])
      else
        (case advance_phase g GenerateCalled of
           Inl e \<Rightarrow> Inl e
         | Inr g1 \<Rightarrow>
        (case advance_phase g1 ScheduleCalled of
           Inl e \<Rightarrow> Inl e
         | Inr g2 \<Rightarrow>
        (case param_info g2 of
           Inl e \<Rightarrow> Inl e
         | Inr (pi, g3) \<Rightarrow>
        (case EmitterBase split_string StubEmitter stub_file_path
                (generator_registered_name g3) (generator_stub_name g3)
                (generator_params pi) (filter_inputs pi) (filter_outputs pi) of
           Inl e \<Rightarrow> Inl e
         | Inr stubmitter \<Rightarrow> Inr (stubmitter, g3))))))"

definition emit_yaml ::
  "(string \<Rightarrow> string \<Rightarrow> string list) \<Rightarrow> ('e, 't) generator_base \<Rightarrow> string
     \<Rightarrow> ('e, 't) error + (('e, 't) emitter \<times> ('e, 't) generator_base)" where
  "emit_yaml split_string g yaml_file_path =
     (if \<not> (generator_registered_name g \<noteq> [] \<and> generator_stub_name g \<noteq> []) then
        Inl (UserError [S ''Generator has no name.\<newline>''])
      else
        (case advance_phase g GenerateCalled of
           Inl e \<Rightarrow> Inl e
         | Inr g1 \<Rightarrow>
        (case advance_phase g1 ScheduleCalled of
           Inl e \<Rightarrow> Inl e
         | Inr g2 \<Rightarrow>
        (case param_info g2 of
           Inl e \<Rightarrow> Inl e
         | Inr (pi, g3) \<Rightarrow>
        (case EmitterBase split_string YamlEmitter yaml_file_path
                (generator_registered_name g3) (generator_stub_name g3)
                (generator_params pi) (filter_inputs pi) (filter_outputs pi) of
           Inl e \<Rightarrow> Inl e
         | Inr yamitter \<Rightarrow> Inr (yamitter, g3))))))"

section \<open>The generator of the self-test\<close>

text \<open>
  The first \<^verbatim>\<open>Tester\<close> of \<^verbatim>\<open>generator_test\<close>: three generator params beside the three
  of its context, the scalar input \<^verbatim>\<open>Input<int> input{"input"}\<close> and the output
  \<^verbatim>\<open>Output<Func> output{"output", Int(32), 1}\<close>, newly constructed and given the two
  names that a factory of the registry sets. Types are written by their names here and
  expressions are integers.
\<close>

definition tester_input :: "(int, string, nat) gio_base" where
  "tester_input =
     \<lparr>gio_array_size = 1, gio_name = ''input'', gio_kind = Scalar, gio_types = [''int32''],
      gio_dims = 0, gio_funcs = [], gio_exprs = [], gio_generator = None,
      gio_is_array = False, gio_input_or_output = ''Input''\<rparr>"

definition tester_output :: "(int, string, nat) gio_base" where
  "tester_output =
     \<lparr>gio_array_size = 1, gio_name = ''output'', gio_kind = Function, gio_types = [''int32''],
      gio_dims = 1, gio_funcs = [], gio_exprs = [], gio_generator = None,
      gio_is_array = False, gio_input_or_output = ''Output''\<rparr>"

definition tester_param :: "string \<Rightarrow> nat generator_param_base" where
  "tester_param n = \<lparr>gp_name = n, gp_generator = None, gp_synthetic = None\<rparr>"

definition tester :: "(int, string) generator_base" where
  "tester =
     \<lparr>phase = Created, generator_registered_name = ''tester'', generator_stub_name = ''Tester'',
      param_info_ptr = None, this = 1,
      member_params = [],
      member_inputs = [Some tester_input],
      member_outputs = [Some tester_output],
      member_generator_params =
        [Some (tester_param ''target''), Some (tester_param ''auto_schedule''),
         Some (tester_param ''machine_params''), Some (tester_param ''gp0''),
         Some (tester_param ''gp1''), Some (tester_param ''gp2'')]\<rparr>"

text \<open>The schema of that generator: the two synthetic params of its output come first,
  and every member found points back to the generator.\<close>

definition tester_generator_params :: "nat generator_param_base list" where
  "tester_generator_params =
     [\<lparr>gp_name = ''output.type'', gp_generator = Some 1, gp_synthetic = Some (Type, ''output'', True)\<rparr>,
      \<lparr>gp_name = ''output.dim'', gp_generator = Some 1, gp_synthetic = Some (Dim, ''output'', True)\<rparr>,
      \<lparr>gp_name = ''target'', gp_generator = Some 1, gp_synthetic = None\<rparr>,
      \<lparr>gp_name = ''auto_schedule'', gp_generator = Some 1, gp_synthetic = None\<rparr>,
      \<lparr>gp_name = ''machine_params'', gp_generator = Some 1, gp_synthetic = None\<rparr>,
      \<lparr>gp_name = ''gp0'', gp_generator = Some 1, gp_synthetic = None\<rparr>,
      \<lparr>gp_name = ''gp1'', gp_generator = Some 1, gp_synthetic = None\<rparr>,
      \<lparr>gp_name = ''gp2'', gp_generator = Some 1, gp_synthetic = None\<rparr>]"

definition tester_schema :: "(int, string) param_info" where
  "tester_schema =
     \<lparr>filter_params = [],
      filter_inputs = [tester_input\<lparr>gio_generator := Some 1\<rparr>],
      filter_outputs = [tester_output\<lparr>gio_generator := Some 1\<rparr>],
      generator_params = tester_generator_params,
      generator_params_by_name = index_by_name tester_generator_params Map.empty,
      owned_synthetic_params = take 2 tester_generator_params\<rparr>"

text \<open>The same members with a legacy \<^verbatim>\<open>Param<>\<close> named \<open>p\<close> beside them.\<close>

definition legacy_param :: registered_parameter where
  "legacy_param = \<lparr>rp_defined = True, rp_is_explicit_name = True, rp_name = ''p''\<rparr>"

text \<open>The splitter of the examples: it cuts a string at every occurrence of the
  delimiter, an empty delimiter cutting nowhere.\<close>

function split_on :: "string \<Rightarrow> string \<Rightarrow> string \<Rightarrow> string list" where
  "split_on delim piece s =
     (if s = [] then [piece]
      else if delim \<noteq> [] \<and> take (length delim) s = delim
      then piece # split_on delim [] (drop (length delim) s)
      else split_on delim (piece @ [hd s]) (tl s))"
  by pat_completeness auto
termination
  by (relation "measure (\<lambda>(delim, piece, s). length s)") auto

declare split_on.simps [simp del]

definition tester_split :: "string \<Rightarrow> string \<Rightarrow> string list" where
  "tester_split source delim = split_on delim [] source"


section \<open>Properties of the consistency tracker\<close>

lemma track_values_loop_done:
  "\<not> i < length vs \<Longrightarrow> track_values_loop c m vs h i = Inr h"
  by (subst track_values_loop.simps) simp

lemma track_values_loop_same:
  "i < length vs \<Longrightarrow> same_value c (last (h ! i)) (vs ! i) \<Longrightarrow>
   track_values_loop c m vs h i = track_values_loop c m vs h (Suc i)"
  by (subst track_values_loop.simps) simp

lemma track_values_loop_fail:
  "i < length vs \<Longrightarrow> i < length h \<Longrightarrow> \<not> same_value c (last (h ! i)) (vs ! i) \<Longrightarrow>
   m \<le> length (h ! i) \<Longrightarrow>
   track_values_loop c m vs h i = Inl (UserError (too_many_message i m (h ! i @ [vs ! i])))"
  by (subst track_values_loop.simps) (simp add: Let_def)

lemma track_values_loop_push:
  "i < length vs \<Longrightarrow> i < length h \<Longrightarrow> \<not> same_value c (last (h ! i)) (vs ! i) \<Longrightarrow>
   length (h ! i) < m \<Longrightarrow>
   track_values_loop c m vs h i = track_values_loop c m vs (h[i := h ! i @ [vs ! i]]) (Suc i)"
  by (subst track_values_loop.simps) (simp add: Let_def)

text \<open>The first position whose new value overflows the bound ends the loop.\<close>

lemma track_values_loop_first_overflow:
  assumes "length h = length vs" and "i \<le> k" and "k < length vs"
    and "\<not> same_value c (last (h ! k)) (vs ! k)" and "m \<le> length (h ! k)"
    and "\<forall>j. i \<le> j \<and> j < k \<longrightarrow> same_value c (last (h ! j)) (vs ! j) \<or> length (h ! j) < m"
  shows "track_values_loop c m vs h i =
         (Inl (UserError (too_many_message k m (h ! k @ [vs ! k])))
            :: ('e, 't) error + 'e option list list)"
  using assms
proof (induction "k - i" arbitrary: i h)
  case 0
  then have "i = k" by simp
  with 0 show ?case by (simp add: track_values_loop_fail)
next
  case (Suc d)
  then have ik: "i < k" and il: "i < length vs" and ih: "i < length h" by auto
  show ?case
  proof (cases "same_value c (last (h ! i)) (vs ! i)")
    case True
    have "track_values_loop c m vs h (Suc i) =
          (Inl (UserError (too_many_message k m (h ! k @ [vs ! k])))
             :: ('e, 't) error + 'e option list list)"
      using Suc.prems Suc.hyps(2) ik by (intro Suc.hyps(1)) auto
    with True il show ?thesis by (simp add: track_values_loop_same)
  next
    case False
    with Suc.prems(6) ik have lt: "length (h ! i) < m" by auto
    let ?h = "h[i := h ! i @ [vs ! i]]"
    have same: "\<And>j. i < j \<Longrightarrow> ?h ! j = h ! j" by simp
    have "track_values_loop c m vs ?h (Suc i) =
          (Inl (UserError (too_many_message k m (?h ! k @ [vs ! k])))
             :: ('e, 't) error + 'e option list list)"
      using Suc.prems Suc.hyps(2) ik same by (intro Suc.hyps(1)) auto
    with False il ih lt same [OF ik] show ?thesis by (simp add: track_values_loop_push)
  qed
qed

text \<open>What a run of the loop that ends without failure has done at each position.\<close>

lemma track_values_loop_success:
  assumes "length h = length vs"
    and "track_values_loop c m vs h i = (Inr h' :: ('e, 't) error + 'e option list list)"
  shows "length h' = length h \<and> (\<forall>j<i. h' ! j = h ! j) \<and>
         (\<forall>j. i \<le> j \<and> j < length vs \<longrightarrow>
            (if same_value c (last (h ! j)) (vs ! j) then h' ! j = h ! j
             else h' ! j = h ! j @ [vs ! j] \<and> length (h ! j) < m))"
  using assms
proof (induction "length vs - i" arbitrary: i h)
  case 0
  then have "\<not> i < length vs" by simp
  with 0 show ?case by (simp add: track_values_loop_done)
next
  case (Suc d)
  then have il: "i < length vs" and ih: "i < length h" by auto
  show ?case
  proof (cases "same_value c (last (h ! i)) (vs ! i)")
    case True
    with il Suc.prems
    have run: "track_values_loop c m vs h (Suc i) = (Inr h' :: ('e, 't) error + 'e option list list)"
      by (simp add: track_values_loop_same)
    have d: "d = length vs - Suc i" using Suc.hyps(2) by simp
    note IH = Suc.hyps(1) [OF d Suc.prems(1) run]
    show ?thesis
    proof (intro conjI allI impI)
      show "length h' = length h" using IH by simp
    next
      fix j assume "j < i" then show "h' ! j = h ! j" using IH by simp
    next
      fix j assume j: "i \<le> j \<and> j < length vs"
      show "if same_value c (last (h ! j)) (vs ! j) then h' ! j = h ! j
            else h' ! j = h ! j @ [vs ! j] \<and> length (h ! j) < m"
      proof (cases "j = i")
        case True
        with IH \<open>same_value c (last (h ! i)) (vs ! i)\<close> show ?thesis by simp
      next
        case False
        with j have "Suc i \<le> j \<and> j < length vs" by simp
        with IH show ?thesis by blast
      qed
    qed
  next
    case False
    show ?thesis
    proof (cases "length (h ! i) < m")
      case lt: True
      let ?h = "h[i := h ! i @ [vs ! i]]"
      from False il ih lt Suc.prems
      have run: "track_values_loop c m vs ?h (Suc i) = (Inr h' :: ('e, 't) error + 'e option list list)"
        by (simp add: track_values_loop_push)
      have d: "d = length vs - Suc i" using Suc.hyps(2) by simp
      have len: "length ?h = length vs" using Suc.prems(1) by simp
      note IH = Suc.hyps(1) [OF d len run]
      show ?thesis
      proof (intro conjI allI impI)
        show "length h' = length h" using IH by simp
      next
        fix j assume "j < i" then show "h' ! j = h ! j" using IH by simp
      next
        fix j assume j: "i \<le> j \<and> j < length vs"
        show "if same_value c (last (h ! j)) (vs ! j) then h' ! j = h ! j
              else h' ! j = h ! j @ [vs ! j] \<and> length (h ! j) < m"
        proof (cases "j = i")
          case True
          from IH have "h' ! i = ?h ! i" by simp
          with True False ih lt show ?thesis by simp
        next
          case ne: False
          with j have "Suc i \<le> j \<and> j < length vs" by simp
          moreover from ne j have "?h ! j = h ! j" by simp
          ultimately show ?thesis using IH by (metis (no_types, lifting))
        qed
      qed
    next
      case ge: False
      with False il ih have "track_values_loop c m vs h i =
            (Inl (UserError (too_many_message i m (h ! i @ [vs ! i])))
               :: ('e, 't) error + 'e option list list)"
        by (simp add: track_values_loop_fail)
      with Suc.prems show ?thesis by simp
    qed
  qed
qed

lemma track_values_loop_all_same:
  assumes "\<forall>j. i \<le> j \<and> j < length vs \<longrightarrow> same_value c (last (h ! j)) (vs ! j)"
  shows "track_values_loop c m vs h i = (Inr h :: ('e, 't) error + 'e option list list)"
  using assms
proof (induction "length vs - i" arbitrary: i)
  case 0
  then show ?case by (simp add: track_values_loop_done)
next
  case (Suc d)
  then have il: "i < length vs" by simp
  with Suc.prems have s: "same_value c (last (h ! i)) (vs ! i)" by simp
  have "track_values_loop c m vs h (Suc i) = (Inr h :: ('e, 't) error + 'e option list list)"
    using Suc.prems Suc.hyps(2) by (intro Suc.hyps(1)) auto
  with il s show ?case by (simp add: track_values_loop_same)
qed

lemma history_of_update [simp]:
  "history_of (tr\<lparr>values_history := (values_history tr)(name \<mapsto> h)\<rparr>) name = h"
  by (simp add: history_of_def)

lemma track_values_first:
  "history_of tr name = [] \<Longrightarrow>
   track_values c tr name vs =
     Inr (tr\<lparr>values_history := (values_history tr)(name \<mapsto> map (\<lambda>v. [v]) vs)\<rparr>)"
  by (simp add: track_values_def)

lemma track_values_later:
  "history_of tr name \<noteq> [] \<Longrightarrow> length (history_of tr name) = length vs \<Longrightarrow>
   track_values c tr name vs =
     (case track_values_loop c (max_unique_values tr) vs (history_of tr name) 0 of
        Inl e \<Rightarrow> Inl e
      | Inr h' \<Rightarrow> Inr (tr\<lparr>values_history := (values_history tr)(name \<mapsto> h')\<rparr>))"
  by (simp add: track_values_def)

text \<open>A call that returns leaves every position of the history filled.\<close>

lemma track_values_positions_filled:
  assumes "positions_filled (history_of tr name)"
    and "track_values c tr name vs = (Inr tr' :: ('e, 't) error + 'e value_tracker)"
  shows "positions_filled (history_of tr' name)"
proof (cases "history_of tr name = []")
  case True
  with assms(2) have "history_of tr' name = map (\<lambda>v. [v]) vs"
    by (auto simp: track_values_first)
  then show ?thesis by (simp add: positions_filled_def list_all_iff)
next
  case False
  let ?h = "history_of tr name"
  from False assms(2) have len: "length ?h = length vs"
    by (auto simp: track_values_def Let_def split: if_splits)
  from False len assms(2) obtain h' where
    run: "track_values_loop c (max_unique_values tr) vs ?h 0 = (Inr h' :: ('e, 't) error + 'e option list list)"
    and tr': "tr' = tr\<lparr>values_history := (values_history tr)(name \<mapsto> h')\<rparr>"
    by (auto simp: track_values_later split: sum.splits)
  note S = track_values_loop_success [OF len run]
  have "\<forall>j<length h'. h' ! j \<noteq> []"
  proof (intro allI impI)
    fix j assume j: "j < length h'"
    with S len have jl: "j < length vs" "j < length ?h" by auto
    with assms(1) have ne: "?h ! j \<noteq> []" by (simp add: positions_filled_def list_all_length)
    from S jl have "h' ! j = ?h ! j \<or> h' ! j = ?h ! j @ [vs ! j]"
      by (metis (no_types, lifting) le0)
    with ne show "h' ! j \<noteq> []" by auto
  qed
  with tr' show ?thesis by (simp add: positions_filled_def list_all_length)
qed

text \<open>A call that returns, repeated with the same values, changes nothing.\<close>

lemma track_values_repeat:
  fixes tr :: "'e value_tracker"
  assumes "track_values c tr name vs = (Inr tr1 :: ('e, 't) error + 'e value_tracker)"
    and "\<forall>i<length vs. \<forall>a. vs ! i = Some a \<longrightarrow> c a a"
  shows "track_values c tr1 name vs = (Inr tr1 :: ('e, 't) error + 'e value_tracker)"
proof -
  let ?h = "history_of tr name"
  have refl: "\<And>j. j < length vs \<Longrightarrow> same_value c (vs ! j) (vs ! j)"
    using assms(2) by (auto simp: same_value_def split: option.splits)
  obtain h1 where tr1: "tr1 = tr\<lparr>values_history := (values_history tr)(name \<mapsto> h1)\<rparr>"
    and len: "length h1 = length vs"
    and last: "\<forall>j<length vs. same_value c (last (h1 ! j)) (vs ! j)"
  proof (cases "?h = []")
    case True
    with assms(1) have "tr1 = tr\<lparr>values_history := (values_history tr)(name \<mapsto> map (\<lambda>v. [v]) vs)\<rparr>"
      by (simp add: track_values_first)
    moreover have "\<forall>j<length vs. same_value c (last (map (\<lambda>v. [v]) vs ! j)) (vs ! j)"
      using refl by simp
    ultimately show ?thesis using that [of "map (\<lambda>v. [v]) vs"] by simp
  next
    case False
    from False assms(1) have l: "length ?h = length vs"
      by (auto simp: track_values_def Let_def split: if_splits)
    from False l assms(1) obtain h' where
      run: "track_values_loop c (max_unique_values tr) vs ?h 0 = (Inr h' :: ('e, 't) error + 'e option list list)"
      and t: "tr1 = tr\<lparr>values_history := (values_history tr)(name \<mapsto> h')\<rparr>"
      by (auto simp: track_values_later split: sum.splits)
    note S = track_values_loop_success [OF l run]
    have "\<forall>j<length vs. same_value c (last (h' ! j)) (vs ! j)"
    proof (intro allI impI)
      fix j assume j: "j < length vs"
      show "same_value c (last (h' ! j)) (vs ! j)"
      proof (cases "same_value c (last (?h ! j)) (vs ! j)")
        case True
        with S j have "h' ! j = ?h ! j" by (metis (no_types, lifting) le0)
        with True show ?thesis by simp
      next
        case False
        with S j have "h' ! j = ?h ! j @ [vs ! j]" by (metis (no_types, lifting) le0)
        with refl [OF j] show ?thesis by simp
      qed
    qed
    with S l t show ?thesis using that [of h'] by simp
  qed
  have h1: "history_of tr1 name = h1" using tr1 by simp
  have same: "tr1\<lparr>values_history := (values_history tr1)(name \<mapsto> h1)\<rparr> = tr1"
    using tr1 by simp
  show ?thesis
  proof (cases "h1 = []")
    case True
    with len have "vs = []" by simp
    with True h1 same show ?thesis by (simp add: track_values_first)
  next
    case False
    have "track_values_loop c (max_unique_values tr1) vs h1 0 =
          (Inr h1 :: ('e, 't) error + 'e option list list)"
      using last by (intro track_values_loop_all_same) simp
    with False len h1 same show ?thesis by (simp add: track_values_later)
  qed
qed

text \<open>Where no position overflows, the loop ends without failure.\<close>

lemma track_values_loop_returns:
  assumes "length h = length vs"
    and "\<forall>j. i \<le> j \<and> j < length vs \<longrightarrow> same_value c (last (h ! j)) (vs ! j) \<or> length (h ! j) < m"
  shows "\<exists>h'. track_values_loop c m vs h i = (Inr h' :: ('e, 't) error + 'e option list list)"
  using assms
proof (induction "length vs - i" arbitrary: i h)
  case 0
  then have "\<not> i < length vs" by simp
  then show ?case by (simp add: track_values_loop_done)
next
  case (Suc d)
  then have il: "i < length vs" and ih: "i < length h" by auto
  have d: "d = length vs - Suc i" using Suc.hyps(2) by simp
  show ?case
  proof (cases "same_value c (last (h ! i)) (vs ! i)")
    case True
    have "\<exists>h'. track_values_loop c m vs h (Suc i) = (Inr h' :: ('e, 't) error + 'e option list list)"
      using Suc.prems by (intro Suc.hyps(1) [OF d]) auto
    with True il show ?thesis by (simp add: track_values_loop_same)
  next
    case False
    with Suc.prems(2) il have lt: "length (h ! i) < m" by auto
    let ?h = "h[i := h ! i @ [vs ! i]]"
    have "\<exists>h'. track_values_loop c m vs ?h (Suc i) = (Inr h' :: ('e, 't) error + 'e option list list)"
      using Suc.prems by (intro Suc.hyps(1) [OF d]) auto
    with False il ih lt show ?thesis by (simp add: track_values_loop_push)
  qed
qed

text \<open>A later call in which no position overflows returns, and its history is the old
  one with the new value appended at each position where it differs from the last.\<close>

lemma track_values_later_returns:
  fixes tr :: "'e value_tracker"
  assumes "history_of tr name \<noteq> []" and "length (history_of tr name) = length vs"
    and "\<forall>i<length vs. same_value c (last (history_of tr name ! i)) (vs ! i) \<or>
                       length (history_of tr name ! i) < max_unique_values tr"
  shows "track_values c tr name vs =
         (Inr (tr\<lparr>values_history := (values_history tr)(name \<mapsto>
                 map (\<lambda>i. if same_value c (last (history_of tr name ! i)) (vs ! i)
                          then history_of tr name ! i
                          else history_of tr name ! i @ [vs ! i]) [0..<length vs])\<rparr>)
            :: ('e, 't) error + 'e value_tracker)"
proof -
  let ?h = "history_of tr name"
  let ?m = "max_unique_values tr"
  let ?new = "map (\<lambda>i. if same_value c (last (?h ! i)) (vs ! i) then ?h ! i else ?h ! i @ [vs ! i])
                  [0..<length vs]"
  from assms(3) have no: "\<forall>j. 0 \<le> j \<and> j < length vs \<longrightarrow>
      same_value c (last (?h ! j)) (vs ! j) \<or> length (?h ! j) < ?m" by simp
  from track_values_loop_returns [OF assms(2) no] obtain h' where
    run: "track_values_loop c ?m vs ?h 0 = (Inr h' :: ('e, 't) error + 'e option list list)" by blast
  note S = track_values_loop_success [OF assms(2) run]
  have "h' = ?new"
  proof (rule nth_equalityI)
    show "length h' = length ?new" using S assms(2) by simp
  next
    fix j assume "j < length h'"
    with S assms(2) have j: "j < length vs" by simp
    with S have "if same_value c (last (?h ! j)) (vs ! j) then h' ! j = ?h ! j
                 else h' ! j = ?h ! j @ [vs ! j] \<and> length (?h ! j) < ?m"
      by (metis (no_types, lifting) le0)
    with j show "h' ! j = ?new ! j" by (simp split: if_splits)
  qed
  with run assms(1,2) show ?thesis by (simp add: track_values_later)
qed

text \<open>
  C1. What \<open>track_values\<close> does on every call, and so on every sequence of calls, for
  every name. The first call for a name stores each value as the only entry of its
  position. A later call with a tuple of another length fails the internal assertion.
  A later call in which no position overflows returns, and at each position it has
  appended the new value where that is not the same as the value recorded last, and
  nothing where it is. A later call in which some position receives a new value while
  its history already holds \<open>max_unique_values\<close> values (2 unless stated) fails at the
  first such position \<open>k\<close>, and its message is the heading followed by one line for every
  value recorded at that position, the new one last. So two calls in a row, on a name
  not seen before, with tuples whose values are provably equal at every position leave
  exactly one history entry per position; a call that returns, repeated with the same
  tuple, each defined value of it provably equal to itself, returns and appends nothing;
  and with a bound of at least one, a call that returns never leaves more than
  \<open>max_unique_values\<close> values at any position.
\<close>

theorem track_values_threshold:
  fixes tr :: "'e value_tracker"
  shows
  "(history_of tr name = [] \<longrightarrow>
      track_values c tr name vs =
        (Inr (tr\<lparr>values_history := (values_history tr)(name \<mapsto> map (\<lambda>v. [v]) vs)\<rparr>)
           :: ('e, 't) error + 'e value_tracker)) \<and>
   (history_of tr name \<noteq> [] \<and> length (history_of tr name) \<noteq> length vs \<longrightarrow>
      track_values c tr name vs =
        (Inl (InternalError [S ''Expected values of size '', N (int (length (history_of tr name))),
                             S '' but saw size '', N (int (length vs)),
                             S '' for name '', S name, S ''\<newline>''])
           :: ('e, 't) error + 'e value_tracker)) \<and>
   (history_of tr name \<noteq> [] \<and> length (history_of tr name) = length vs \<and>
    (\<forall>i<length vs. same_value c (last (history_of tr name ! i)) (vs ! i) \<or>
                    length (history_of tr name ! i) < max_unique_values tr) \<longrightarrow>
      track_values c tr name vs =
        (Inr (tr\<lparr>values_history := (values_history tr)(name \<mapsto>
                map (\<lambda>i. if same_value c (last (history_of tr name ! i)) (vs ! i)
                         then history_of tr name ! i
                         else history_of tr name ! i @ [vs ! i]) [0..<length vs])\<rparr>)
           :: ('e, 't) error + 'e value_tracker)) \<and>
   (history_of tr name \<noteq> [] \<and> length (history_of tr name) = length vs \<and>
    positions_filled (history_of tr name) \<and> i < length vs \<and>
    \<not> same_value c (last (history_of tr name ! i)) (vs ! i) \<and>
    max_unique_values tr \<le> length (history_of tr name ! i) \<longrightarrow>
      (\<exists>k\<le>i. \<not> same_value c (last (history_of tr name ! k)) (vs ! k) \<and>
             max_unique_values tr \<le> length (history_of tr name ! k) \<and>
             (\<forall>j<k. same_value c (last (history_of tr name ! j)) (vs ! j) \<or>
                     length (history_of tr name ! j) < max_unique_values tr) \<and>
             track_values c tr name vs =
               (Inl (UserError
                      ([S ''Saw too many unique values in ValueTracker['', N (int k), S '']; '',
                        S ''expected a maximum of '', N (int (max_unique_values tr)), S '':\<newline>'']
                       @ concat (map (\<lambda>e. [S ''    '', E e, S ''\<newline>''])
                                    (history_of tr name ! k @ [vs ! k]))))
                  :: ('e, 't) error + 'e value_tracker) \<and>
             max_unique_values tr < length (history_of tr name ! k @ [vs ! k]))) \<and>
   (history_of tr name = [] \<and> length ws = length vs \<and>
    (\<forall>i<length vs. \<exists>a b. vs ! i = Some a \<and> ws ! i = Some b \<and> c b a) \<longrightarrow>
      (\<exists>tr1 tr2. track_values c tr name vs = (Inr tr1 :: ('e, 't) error + 'e value_tracker) \<and>
                 track_values c tr1 name ws = (Inr tr2 :: ('e, 't) error + 'e value_tracker) \<and>
                 history_of tr2 name = map (\<lambda>v. [v]) vs)) \<and>
   (track_values c tr name vs = (Inr tr' :: ('e, 't) error + 'e value_tracker) \<and>
    (\<forall>i<length vs. \<forall>a. vs ! i = Some a \<longrightarrow> c a a) \<longrightarrow>
      track_values c tr' name vs = (Inr tr' :: ('e, 't) error + 'e value_tracker)) \<and>
   (0 < max_unique_values tr \<and>
    list_all (\<lambda>p. length p \<le> max_unique_values tr) (history_of tr name) \<and>
    track_values c tr name vs = (Inr tr' :: ('e, 't) error + 'e value_tracker) \<longrightarrow>
      list_all (\<lambda>p. length p \<le> max_unique_values tr') (history_of tr' name))"
proof (intro conjI)
  let ?h = "history_of tr name"
  let ?m = "max_unique_values tr"
  show "?h = [] \<longrightarrow>
      track_values c tr name vs =
        (Inr (tr\<lparr>values_history := (values_history tr)(name \<mapsto> map (\<lambda>v. [v]) vs)\<rparr>)
           :: ('e, 't) error + 'e value_tracker)"
    by (simp add: track_values_first)
  show "?h \<noteq> [] \<and> length ?h \<noteq> length vs \<longrightarrow>
      track_values c tr name vs =
        (Inl (InternalError [S ''Expected values of size '', N (int (length ?h)),
                             S '' but saw size '', N (int (length vs)),
                             S '' for name '', S name, S ''\<newline>''])
           :: ('e, 't) error + 'e value_tracker)"
    by (simp add: track_values_def)
  show "?h \<noteq> [] \<and> length ?h = length vs \<and>
    (\<forall>i<length vs. same_value c (last (?h ! i)) (vs ! i) \<or> length (?h ! i) < ?m) \<longrightarrow>
      track_values c tr name vs =
        (Inr (tr\<lparr>values_history := (values_history tr)(name \<mapsto>
                map (\<lambda>i. if same_value c (last (?h ! i)) (vs ! i) then ?h ! i
                         else ?h ! i @ [vs ! i]) [0..<length vs])\<rparr>)
           :: ('e, 't) error + 'e value_tracker)"
    using track_values_later_returns [of tr name vs c] by blast
  show "?h \<noteq> [] \<and> length ?h = length vs \<and> positions_filled ?h \<and> i < length vs \<and>
    \<not> same_value c (last (?h ! i)) (vs ! i) \<and> ?m \<le> length (?h ! i) \<longrightarrow>
      (\<exists>k\<le>i. \<not> same_value c (last (?h ! k)) (vs ! k) \<and> ?m \<le> length (?h ! k) \<and>
             (\<forall>j<k. same_value c (last (?h ! j)) (vs ! j) \<or> length (?h ! j) < ?m) \<and>
             track_values c tr name vs =
               (Inl (UserError
                      ([S ''Saw too many unique values in ValueTracker['', N (int k), S '']; '',
                        S ''expected a maximum of '', N (int ?m), S '':\<newline>'']
                       @ concat (map (\<lambda>e. [S ''    '', E e, S ''\<newline>'']) (?h ! k @ [vs ! k]))))
                  :: ('e, 't) error + 'e value_tracker) \<and>
             ?m < length (?h ! k @ [vs ! k]))"
  proof
    assume a: "?h \<noteq> [] \<and> length ?h = length vs \<and> positions_filled ?h \<and> i < length vs \<and>
      \<not> same_value c (last (?h ! i)) (vs ! i) \<and> ?m \<le> length (?h ! i)"
    define P where "P j \<longleftrightarrow> j < length vs \<and> \<not> same_value c (last (?h ! j)) (vs ! j) \<and> ?m \<le> length (?h ! j)" for j
    from a have "P i" by (simp add: P_def)
    define k where "k = (LEAST j. P j)"
    have Pk: "P k" unfolding k_def using \<open>P i\<close> by (rule LeastI)
    have ki: "k \<le> i" unfolding k_def using \<open>P i\<close> by (rule Least_le)
    have before: "\<forall>j<k. same_value c (last (?h ! j)) (vs ! j) \<or> length (?h ! j) < ?m"
    proof (intro allI impI)
      fix j assume j: "j < k"
      then have "\<not> P j" unfolding k_def using not_less_Least by blast
      moreover from j ki a have "j < length vs" by simp
      ultimately show "same_value c (last (?h ! j)) (vs ! j) \<or> length (?h ! j) < ?m"
        by (auto simp: P_def)
    qed
    from a have len: "length ?h = length vs" by simp
    have "track_values_loop c ?m vs ?h 0 =
          (Inl (UserError (too_many_message k ?m (?h ! k @ [vs ! k])))
             :: ('e, 't) error + 'e option list list)"
      using Pk before by (intro track_values_loop_first_overflow [OF len]) (auto simp: P_def)
    with a have "track_values c tr name vs =
          (Inl (UserError (too_many_message k ?m (?h ! k @ [vs ! k])))
             :: ('e, 't) error + 'e value_tracker)"
      by (simp add: track_values_later)
    then have msg: "track_values c tr name vs =
               (Inl (UserError
                      ([S ''Saw too many unique values in ValueTracker['', N (int k), S '']; '',
                        S ''expected a maximum of '', N (int ?m), S '':\<newline>'']
                       @ concat (map (\<lambda>e. [S ''    '', E e, S ''\<newline>'']) (?h ! k @ [vs ! k]))))
                  :: ('e, 't) error + 'e value_tracker)"
      by (simp only: too_many_message_def)
    from Pk have "\<not> same_value c (last (?h ! k)) (vs ! k)" "?m \<le> length (?h ! k)"
      "?m < length (?h ! k @ [vs ! k])" by (simp_all add: P_def)
    with ki before msg show "\<exists>k\<le>i. \<not> same_value c (last (?h ! k)) (vs ! k) \<and> ?m \<le> length (?h ! k) \<and>
             (\<forall>j<k. same_value c (last (?h ! j)) (vs ! j) \<or> length (?h ! j) < ?m) \<and>
             track_values c tr name vs =
               (Inl (UserError
                      ([S ''Saw too many unique values in ValueTracker['', N (int k), S '']; '',
                        S ''expected a maximum of '', N (int ?m), S '':\<newline>'']
                       @ concat (map (\<lambda>e. [S ''    '', E e, S ''\<newline>'']) (?h ! k @ [vs ! k]))))
                  :: ('e, 't) error + 'e value_tracker) \<and>
             ?m < length (?h ! k @ [vs ! k])"
      by blast
  qed
  show "?h = [] \<and> length ws = length vs \<and>
    (\<forall>i<length vs. \<exists>a b. vs ! i = Some a \<and> ws ! i = Some b \<and> c b a) \<longrightarrow>
      (\<exists>tr1 tr2. track_values c tr name vs = (Inr tr1 :: ('e, 't) error + 'e value_tracker) \<and>
                 track_values c tr1 name ws = (Inr tr2 :: ('e, 't) error + 'e value_tracker) \<and>
                 history_of tr2 name = map (\<lambda>v. [v]) vs)"
  proof
    assume a: "?h = [] \<and> length ws = length vs \<and>
      (\<forall>i<length vs. \<exists>a b. vs ! i = Some a \<and> ws ! i = Some b \<and> c b a)"
    let ?h1 = "map (\<lambda>v. [v]) vs"
    let ?tr1 = "tr\<lparr>values_history := (values_history tr)(name \<mapsto> ?h1)\<rparr>"
    have first: "track_values c tr name vs = (Inr ?tr1 :: ('e, 't) error + 'e value_tracker)"
      using a by (simp add: track_values_first)
    have second: "track_values c ?tr1 name ws = (Inr ?tr1 :: ('e, 't) error + 'e value_tracker)"
    proof (cases "vs = []")
      case True
      with a have "ws = []" by simp
      with True show ?thesis by (simp add: track_values_def)
    next
      case False
      have same: "\<forall>j. 0 \<le> j \<and> j < length ws \<longrightarrow> same_value c (last (?h1 ! j)) (ws ! j)"
      proof (intro allI impI)
        fix j assume "0 \<le> j \<and> j < length ws"
        with a have j: "j < length vs" by simp
        with a obtain x y where "vs ! j = Some x" "ws ! j = Some y" "c y x" by blast
        with j show "same_value c (last (?h1 ! j)) (ws ! j)" by (simp add: same_value_def)
      qed
      have "track_values_loop c (max_unique_values ?tr1) ws ?h1 0 =
            (Inr ?h1 :: ('e, 't) error + 'e option list list)"
        by (rule track_values_loop_all_same [OF same])
      with False a show ?thesis by (simp add: track_values_later)
    qed
    from first second
    show "\<exists>tr1 tr2. track_values c tr name vs = (Inr tr1 :: ('e, 't) error + 'e value_tracker) \<and>
                 track_values c tr1 name ws = (Inr tr2 :: ('e, 't) error + 'e value_tracker) \<and>
                 history_of tr2 name = map (\<lambda>v. [v]) vs"
      by (metis history_of_update)
  qed
  show "track_values c tr name vs = (Inr tr' :: ('e, 't) error + 'e value_tracker) \<and>
    (\<forall>i<length vs. \<forall>a. vs ! i = Some a \<longrightarrow> c a a) \<longrightarrow>
      track_values c tr' name vs = (Inr tr' :: ('e, 't) error + 'e value_tracker)"
    using track_values_repeat [of c tr name vs tr'] by blast
  show "0 < ?m \<and> list_all (\<lambda>p. length p \<le> ?m) ?h \<and>
    track_values c tr name vs = (Inr tr' :: ('e, 't) error + 'e value_tracker) \<longrightarrow>
      list_all (\<lambda>p. length p \<le> max_unique_values tr') (history_of tr' name)"
  proof
    assume a: "0 < ?m \<and> list_all (\<lambda>p. length p \<le> ?m) ?h \<and>
      track_values c tr name vs = (Inr tr' :: ('e, 't) error + 'e value_tracker)"
    show "list_all (\<lambda>p. length p \<le> max_unique_values tr') (history_of tr' name)"
    proof (cases "?h = []")
      case True
      with a have "tr' = tr\<lparr>values_history := (values_history tr)(name \<mapsto> map (\<lambda>v. [v]) vs)\<rparr>"
        by (simp add: track_values_first)
      with a show ?thesis by (simp add: list_all_iff)
    next
      case False
      from False a have len: "length ?h = length vs"
        by (auto simp: track_values_def Let_def split: if_splits)
      from False len a obtain h' where
        run: "track_values_loop c ?m vs ?h 0 = (Inr h' :: ('e, 't) error + 'e option list list)"
        and tr': "tr' = tr\<lparr>values_history := (values_history tr)(name \<mapsto> h')\<rparr>"
        by (auto simp: track_values_later split: sum.splits)
      note S = track_values_loop_success [OF len run]
      have "\<forall>j<length h'. length (h' ! j) \<le> ?m"
      proof (intro allI impI)
        fix j assume j: "j < length h'"
        with S len have jl: "j < length vs" "j < length ?h" by auto
        with a have le: "length (?h ! j) \<le> ?m" by (simp add: list_all_length)
        from S jl have "h' ! j = ?h ! j \<or> (h' ! j = ?h ! j @ [vs ! j] \<and> length (?h ! j) < ?m)"
          by (metis (no_types, lifting) le0)
        with le show "length (h' ! j) \<le> ?m" by auto
      qed
      with tr' show ?thesis by (simp add: list_all_length)
    qed
  qed
qed

theorem track_values_threshold_witness:
  "history_of (ValueTracker 2 :: nat value_tracker) ''buf'' = [] \<and>
   track_values (=) (ValueTracker 2) ''buf'' [Some (5::nat)]
     = (Inr \<lparr>values_history = [''buf'' \<mapsto> [[Some 5]]], max_unique_values = 2\<rparr>
          :: (nat, unit) error + nat value_tracker) \<and>
   track_values (=) \<lparr>values_history = [''buf'' \<mapsto> [[Some (5::nat)]]], max_unique_values = 2\<rparr>
       ''buf'' [Some 5]
     = (Inr \<lparr>values_history = [''buf'' \<mapsto> [[Some 5]]], max_unique_values = 2\<rparr>
          :: (nat, unit) error + nat value_tracker) \<and>
   track_values (=) \<lparr>values_history = [''buf'' \<mapsto> [[Some (5::nat)]]], max_unique_values = 2\<rparr>
       ''buf'' [Some 6]
     = (Inr \<lparr>values_history = [''buf'' \<mapsto> [[Some 5, Some 6]]], max_unique_values = 2\<rparr>
          :: (nat, unit) error + nat value_tracker) \<and>
   track_values (=) \<lparr>values_history = [''buf'' \<mapsto> [[Some (5::nat), Some 6]]], max_unique_values = 2\<rparr>
       ''buf'' [Some 7]
     = (Inl (UserError
              [S ''Saw too many unique values in ValueTracker['', N 0, S '']; '',
               S ''expected a maximum of '', N 2, S '':\<newline>'',
               S ''    '', E (Some 5), S ''\<newline>'',
               S ''    '', E (Some 6), S ''\<newline>'',
               S ''    '', E (Some 7), S ''\<newline>''])
          :: (nat, unit) error + nat value_tracker) \<and>
   track_values (=) \<lparr>values_history = [''buf'' \<mapsto> [[Some (5::nat)]]], max_unique_values = 2\<rparr>
       ''buf'' [Some 5, Some 6]
     = (Inl (InternalError [S ''Expected values of size '', N 1, S '' but saw size '', N 2,
                            S '' for name '', S ''buf'', S ''\<newline>''])
          :: (nat, unit) error + nat value_tracker) \<and>
   (\<exists>tr1 tr2. track_values (=) (ValueTracker 2) ''buf'' [Some (5::nat)]
                   = (Inr tr1 :: (nat, unit) error + nat value_tracker) \<and>
               track_values (=) tr1 ''buf'' [Some 5]
                   = (Inr tr2 :: (nat, unit) error + nat value_tracker) \<and>
               history_of tr2 ''buf'' = [[Some 5]]) \<and>
   list_all (\<lambda>p. length p \<le> 2)
     (history_of \<lparr>values_history = [''buf'' \<mapsto> [[Some (5::nat), Some 6]]], max_unique_values = 2\<rparr>
        ''buf'')"
proof -
  let ?new = "ValueTracker 2 :: nat value_tracker"
  let ?one = "\<lparr>values_history = [''buf'' \<mapsto> [[Some (5::nat)]]], max_unique_values = 2\<rparr>"
  let ?two = "\<lparr>values_history = [''buf'' \<mapsto> [[Some (5::nat), Some 6]]], max_unique_values = 2\<rparr>"
  note T = track_values_threshold [where ?'t = unit and name = "''buf''" and c = "(=)"]
  have fresh: "history_of ?new ''buf'' = []"
    by (simp add: history_of_def ValueTracker_def)
  have h1: "history_of ?one ''buf'' = [[Some 5]]" by (simp add: history_of_def)
  have h2: "history_of ?two ''buf'' = [[Some 5, Some 6]]" by (simp add: history_of_def)
  have m: "max_unique_values ?one = 2" "max_unique_values ?two = 2" by simp_all
  have u1: "?new\<lparr>values_history := (values_history ?new)(''buf'' \<mapsto> map (\<lambda>v. [v]) [Some 5])\<rparr> = ?one"
    by (simp add: ValueTracker_def)
  from T [where tr = ?new and vs = "[Some 5]", THEN conjunct1] fresh
  have "track_values (=) ?new ''buf'' [Some 5] =
        (Inr (?new\<lparr>values_history := (values_history ?new)(''buf'' \<mapsto> map (\<lambda>v. [v]) [Some 5])\<rparr>)
           :: (nat, unit) error + nat value_tracker)"
    by (rule mp)
  then have first: "track_values (=) ?new ''buf'' [Some 5] = (Inr ?one :: (nat, unit) error + nat value_tracker)"
    by (simp only: u1)
  have r: "\<forall>i<length [Some (5::nat)]. \<forall>a. [Some 5] ! i = Some a \<longrightarrow> a = a" by simp
  from T [where tr = ?new and vs = "[Some 5]" and tr' = ?one, THEN conjunct2, THEN conjunct2, THEN conjunct2, THEN conjunct2, THEN conjunct2,
        THEN conjunct1] first r
  have again: "track_values (=) ?one ''buf'' [Some 5] = (Inr ?one :: (nat, unit) error + nat value_tracker)"
    by blast
  have p2: "history_of ?one ''buf'' \<noteq> [] \<and> length (history_of ?one ''buf'') = length [Some (6::nat)] \<and>
    (\<forall>i<length [Some (6::nat)].
        same_value (=) (last (history_of ?one ''buf'' ! i)) ([Some 6] ! i) \<or>
        length (history_of ?one ''buf'' ! i) < max_unique_values ?one)"
    by (simp add: h1)
  have u2: "?one\<lparr>values_history := (values_history ?one)(''buf'' \<mapsto>
                map (\<lambda>i. if same_value (=) (last (history_of ?one ''buf'' ! i)) ([Some 6] ! i)
                         then history_of ?one ''buf'' ! i
                         else history_of ?one ''buf'' ! i @ [[Some 6] ! i]) [0..<length [Some (6::nat)]])\<rparr>
            = ?two"
    by (simp add: h1 same_value_def)
  from T [where tr = ?one and vs = "[Some 6]", THEN conjunct2, THEN conjunct2, THEN conjunct1] p2
  have "track_values (=) ?one ''buf'' [Some 6] =
        (Inr (?one\<lparr>values_history := (values_history ?one)(''buf'' \<mapsto>
                map (\<lambda>i. if same_value (=) (last (history_of ?one ''buf'' ! i)) ([Some 6] ! i)
                         then history_of ?one ''buf'' ! i
                         else history_of ?one ''buf'' ! i @ [[Some 6] ! i]) [0..<length [Some (6::nat)]])\<rparr>)
           :: (nat, unit) error + nat value_tracker)"
    by (rule mp)
  then have second: "track_values (=) ?one ''buf'' [Some 6] = (Inr ?two :: (nat, unit) error + nat value_tracker)"
    by (simp only: u2)
  have p3: "history_of ?two ''buf'' \<noteq> [] \<and> length (history_of ?two ''buf'') = length [Some (7::nat)] \<and>
    positions_filled (history_of ?two ''buf'') \<and> 0 < length [Some (7::nat)] \<and>
    \<not> same_value (=) (last (history_of ?two ''buf'' ! 0)) ([Some 7] ! 0) \<and>
    max_unique_values ?two \<le> length (history_of ?two ''buf'' ! 0)"
    by (simp add: h2 positions_filled_def same_value_def)
  from T [where tr = ?two and vs = "[Some 7]" and i = 0, THEN conjunct2, THEN conjunct2, THEN conjunct2, THEN conjunct1] p3
  have "\<exists>k\<le>0. track_values (=) ?two ''buf'' [Some 7] =
               (Inl (UserError
                      ([S ''Saw too many unique values in ValueTracker['', N (int k), S '']; '',
                        S ''expected a maximum of '', N (int (max_unique_values ?two)), S '':\<newline>'']
                       @ concat (map (\<lambda>e. [S ''    '', E e, S ''\<newline>''])
                                    (history_of ?two ''buf'' ! k @ [[Some 7] ! k]))))
                  :: (nat, unit) error + nat value_tracker)"
    by blast
  then have third: "track_values (=) ?two ''buf'' [Some 7]
     = (Inl (UserError
              [S ''Saw too many unique values in ValueTracker['', N 0, S '']; '',
               S ''expected a maximum of '', N 2, S '':\<newline>'',
               S ''    '', E (Some 5), S ''\<newline>'',
               S ''    '', E (Some 6), S ''\<newline>'',
               S ''    '', E (Some 7), S ''\<newline>''])
          :: (nat, unit) error + nat value_tracker)"
    by (simp add: h2)
  have p4: "history_of ?one ''buf'' \<noteq> [] \<and> length (history_of ?one ''buf'') \<noteq> length [Some (5::nat), Some 6]"
    by (simp add: h1)
  from T [where tr = ?one and vs = "[Some 5, Some 6]", THEN conjunct2, THEN conjunct1] p4
  have "track_values (=) ?one ''buf'' [Some 5, Some 6]
     = (Inl (InternalError [S ''Expected values of size '', N (int (length (history_of ?one ''buf''))),
                            S '' but saw size '', N (int (length [Some (5::nat), Some 6])),
                            S '' for name '', S ''buf'', S ''\<newline>''])
          :: (nat, unit) error + nat value_tracker)"
    by (rule mp)
  then have size: "track_values (=) ?one ''buf'' [Some 5, Some 6]
     = (Inl (InternalError [S ''Expected values of size '', N 1, S '' but saw size '', N 2,
                            S '' for name '', S ''buf'', S ''\<newline>''])
          :: (nat, unit) error + nat value_tracker)"
    by (simp add: h1)
  have p5: "history_of ?new ''buf'' = [] \<and> length [Some (5::nat)] = length [Some (5::nat)] \<and>
    (\<forall>i<length [Some (5::nat)]. \<exists>a b. [Some 5] ! i = Some a \<and> [Some 5] ! i = Some b \<and> b = a)"
    by (simp add: fresh)
  from T [where tr = ?new and vs = "[Some 5]" and ws = "[Some 5]", THEN conjunct2, THEN conjunct2, THEN conjunct2, THEN conjunct2, THEN conjunct1] p5
  have "\<exists>tr1 tr2. track_values (=) ?new ''buf'' [Some (5::nat)]
                   = (Inr tr1 :: (nat, unit) error + nat value_tracker) \<and>
               track_values (=) tr1 ''buf'' [Some 5]
                   = (Inr tr2 :: (nat, unit) error + nat value_tracker) \<and>
               history_of tr2 ''buf'' = map (\<lambda>v. [v]) [Some 5]"
    by (rule mp)
  then have twice: "\<exists>tr1 tr2. track_values (=) ?new ''buf'' [Some (5::nat)]
                   = (Inr tr1 :: (nat, unit) error + nat value_tracker) \<and>
               track_values (=) tr1 ''buf'' [Some 5]
                   = (Inr tr2 :: (nat, unit) error + nat value_tracker) \<and>
               history_of tr2 ''buf'' = [[Some 5]]"
    by simp
  have p6: "0 < max_unique_values ?one \<and>
    list_all (\<lambda>p. length p \<le> max_unique_values ?one) (history_of ?one ''buf'')"
    by (simp add: h1)
  from T [where tr = ?one and vs = "[Some 6]" and tr' = ?two, THEN conjunct2, THEN conjunct2, THEN conjunct2, THEN conjunct2, THEN conjunct2,
        THEN conjunct2] p6 second
  have "list_all (\<lambda>p. length p \<le> max_unique_values ?two) (history_of ?two ''buf'')"
    by blast
  then have bound: "list_all (\<lambda>p. length p \<le> 2) (history_of ?two ''buf'')"
    by (simp only: m)
  from fresh first again second third size twice bound show ?thesis by blast
qed

text \<open>
  C10. In a later call of \<open>track_values\<close>, at a position where the value recorded last and
  the new value are both undefined, the two count as equal and a call that returns has
  appended nothing there. At a position where exactly one of the two is undefined, a
  call that returns has appended the new value as a further entry, and it counts towards
  the bound: when that position already holds \<open>max_unique_values\<close> values the call fails
  with the message of too many values, at that position or at an earlier one.
\<close>

theorem track_values_undefined:
  fixes tr :: "'e value_tracker"
  assumes "history_of tr name \<noteq> []" and "length (history_of tr name) = length vs"
    and "positions_filled (history_of tr name)" and "i < length vs"
  shows
  "(last (history_of tr name ! i) = None \<and> vs ! i = None \<and>
    track_values c tr name vs = (Inr tr' :: ('e, 't) error + 'e value_tracker) \<longrightarrow>
      history_of tr' name ! i = history_of tr name ! i) \<and>
   ((last (history_of tr name ! i) = None) \<noteq> (vs ! i = None) \<and>
    track_values c tr name vs = (Inr tr' :: ('e, 't) error + 'e value_tracker) \<longrightarrow>
      history_of tr' name ! i = history_of tr name ! i @ [vs ! i] \<and>
      length (history_of tr' name ! i) \<le> max_unique_values tr) \<and>
   ((last (history_of tr name ! i) = None) \<noteq> (vs ! i = None) \<and>
    max_unique_values tr \<le> length (history_of tr name ! i) \<longrightarrow>
      (\<exists>k\<le>i. \<exists>vals. track_values c tr name vs =
           (Inl (UserError (too_many_message k (max_unique_values tr) vals))
              :: ('e, 't) error + 'e value_tracker)))"
proof (intro conjI)
  let ?h = "history_of tr name"
  let ?m = "max_unique_values tr"
  show "last (?h ! i) = None \<and> vs ! i = None \<and>
    track_values c tr name vs = (Inr tr' :: ('e, 't) error + 'e value_tracker) \<longrightarrow>
      history_of tr' name ! i = ?h ! i"
  proof
  assume a: "last (?h ! i) = None \<and> vs ! i = None \<and>
    track_values c tr name vs = (Inr tr' :: ('e, 't) error + 'e value_tracker)"
  with assms obtain h' where
    run: "track_values_loop c ?m vs ?h 0 = (Inr h' :: ('e, 't) error + 'e option list list)"
    and tr': "tr' = tr\<lparr>values_history := (values_history tr)(name \<mapsto> h')\<rparr>"
    by (auto simp: track_values_later split: sum.splits)
  note S = track_values_loop_success [OF assms(2) run]
  from a have "same_value c (last (?h ! i)) (vs ! i)" by (simp add: same_value_def)
  with S assms(4) have "h' ! i = ?h ! i" by (metis (no_types, lifting) le0)
  with tr' show "history_of tr' name ! i = ?h ! i" by simp
  qed
next
  let ?h = "history_of tr name"
  let ?m = "max_unique_values tr"
  show "(last (?h ! i) = None) \<noteq> (vs ! i = None) \<and>
    track_values c tr name vs = (Inr tr' :: ('e, 't) error + 'e value_tracker) \<longrightarrow>
      history_of tr' name ! i = ?h ! i @ [vs ! i] \<and>
      length (history_of tr' name ! i) \<le> ?m"
  proof
  assume a: "(last (?h ! i) = None) \<noteq> (vs ! i = None) \<and>
    track_values c tr name vs = (Inr tr' :: ('e, 't) error + 'e value_tracker)"
  with assms obtain h' where
    run: "track_values_loop c ?m vs ?h 0 = (Inr h' :: ('e, 't) error + 'e option list list)"
    and tr': "tr' = tr\<lparr>values_history := (values_history tr)(name \<mapsto> h')\<rparr>"
    by (auto simp: track_values_later split: sum.splits)
  note S = track_values_loop_success [OF assms(2) run]
  from a have "\<not> same_value c (last (?h ! i)) (vs ! i)"
    by (auto simp: same_value_def split: option.splits)
  with S assms(4) have "h' ! i = ?h ! i @ [vs ! i] \<and> length (?h ! i) < ?m"
    by (metis (no_types, lifting) le0)
  with tr' show "history_of tr' name ! i = ?h ! i @ [vs ! i] \<and>
      length (history_of tr' name ! i) \<le> ?m" by simp
  qed
next
  let ?h = "history_of tr name"
  let ?m = "max_unique_values tr"
  show "(last (?h ! i) = None) \<noteq> (vs ! i = None) \<and> ?m \<le> length (?h ! i) \<longrightarrow>
      (\<exists>k\<le>i. \<exists>vals. track_values c tr name vs =
           (Inl (UserError (too_many_message k ?m vals)) :: ('e, 't) error + 'e value_tracker))"
  proof
  assume a: "(last (?h ! i) = None) \<noteq> (vs ! i = None) \<and> ?m \<le> length (?h ! i)"
  then have ns: "\<not> same_value c (last (?h ! i)) (vs ! i)"
    by (auto simp: same_value_def split: option.splits)
  define P where "P j \<longleftrightarrow> j < length vs \<and> \<not> same_value c (last (?h ! j)) (vs ! j) \<and> ?m \<le> length (?h ! j)" for j
  from a ns assms(4) have "P i" by (simp add: P_def)
  define k where "k = (LEAST j. P j)"
  have Pk: "P k" unfolding k_def using \<open>P i\<close> by (rule LeastI)
  have ki: "k \<le> i" unfolding k_def using \<open>P i\<close> by (rule Least_le)
  have before: "\<forall>j. 0 \<le> j \<and> j < k \<longrightarrow> same_value c (last (?h ! j)) (vs ! j) \<or> length (?h ! j) < ?m"
  proof (intro allI impI)
    fix j assume j: "0 \<le> j \<and> j < k"
    then have "\<not> P j" unfolding k_def using not_less_Least by blast
    moreover from j ki assms(4) have "j < length vs" by simp
    ultimately show "same_value c (last (?h ! j)) (vs ! j) \<or> length (?h ! j) < ?m"
      by (auto simp: P_def)
  qed
  have "track_values_loop c ?m vs ?h 0 =
        (Inl (UserError (too_many_message k ?m (?h ! k @ [vs ! k]))) :: ('e, 't) error + 'e option list list)"
    using Pk before by (intro track_values_loop_first_overflow [OF assms(2)]) (auto simp: P_def)
  with assms have "track_values c tr name vs =
        (Inl (UserError (too_many_message k ?m (?h ! k @ [vs ! k]))) :: ('e, 't) error + 'e value_tracker)"
    by (simp add: track_values_later)
  with ki show "\<exists>k\<le>i. \<exists>vals. track_values c tr name vs =
           (Inl (UserError (too_many_message k ?m vals)) :: ('e, 't) error + 'e value_tracker)"
    by blast
  qed
qed

theorem track_values_undefined_witness:
  "history_of \<lparr>values_history = [''buf'' \<mapsto> [[None], [Some (5::nat)], [Some 1, None]]],
               max_unique_values = 2\<rparr> ''buf'' = [[None], [Some 5], [Some 1, None]] \<and>
   positions_filled [[None], [Some (5::nat)], [Some 1, None]] \<and>
   track_values (=) \<lparr>values_history = [''buf'' \<mapsto> [[None], [Some (5::nat)], [Some 1, None]]],
                      max_unique_values = 2\<rparr> ''buf'' [None, None, None]
     = (Inr \<lparr>values_history = [''buf'' \<mapsto> [[None], [Some 5, None], [Some 1, None]]],
              max_unique_values = 2\<rparr> :: (nat, unit) error + nat value_tracker) \<and>
   [[None], [Some (5::nat), None], [Some 1, None]] ! 0 = [[None], [Some 5], [Some 1, None]] ! 0 \<and>
   [[None], [Some (5::nat), None], [Some 1, None]] ! 1 = [[None], [Some 5], [Some 1, None]] ! 1 @ [None] \<and>
   (\<exists>k\<le>2. \<exists>vals.
      track_values (=) \<lparr>values_history = [''buf'' \<mapsto> [[None], [Some (5::nat)], [Some 1, None]]],
                         max_unique_values = 2\<rparr> ''buf'' [None, None, Some 3]
        = (Inl (UserError (too_many_message k 2 vals)) :: (nat, unit) error + nat value_tracker))"
proof -
  let ?tr = "\<lparr>values_history = [''buf'' \<mapsto> [[None], [Some (5::nat)], [Some 1, None]]],
              max_unique_values = 2\<rparr>"
  let ?tr' = "\<lparr>values_history = [''buf'' \<mapsto> [[None], [Some (5::nat), None], [Some 1, None]]],
              max_unique_values = 2\<rparr>"
  have h: "history_of ?tr ''buf'' = [[None], [Some 5], [Some 1, None]]"
    by (simp add: history_of_def)
  have pf: "positions_filled [[None], [Some (5::nat)], [Some 1, None]]"
    by (simp add: positions_filled_def)
  have run: "track_values (=) ?tr ''buf'' [None, None, None]
     = (Inr ?tr' :: (nat, unit) error + nat value_tracker)"
    by (simp add: track_values_def history_of_def track_values_loop.simps same_value_def Let_def)
  have h': "history_of ?tr' ''buf'' = [[None], [Some 5, None], [Some 1, None]]"
    by (simp add: history_of_def)
  have A: "[[None], [Some (5::nat), None], [Some 1, None]] ! 0 = [[None], [Some 5], [Some 1, None]] ! 0"
    using track_values_undefined [where ?'t = unit and tr = ?tr and name = "''buf''"
        and vs = "[None, None, None]" and c = "(=)" and i = 0 and tr' = ?tr'] h h' pf run
    by simp
  have B: "[[None], [Some (5::nat), None], [Some 1, None]] ! 1 = [[None], [Some 5], [Some 1, None]] ! 1 @ [None]"
    using track_values_undefined [where ?'t = unit and tr = ?tr and name = "''buf''"
        and vs = "[None, None, None]" and c = "(=)" and i = 1 and tr' = ?tr'] h h' pf run
    by simp
  have C: "\<exists>k\<le>2. \<exists>vals. track_values (=) ?tr ''buf'' [None, None, Some 3]
        = (Inl (UserError (too_many_message k 2 vals)) :: (nat, unit) error + nat value_tracker)"
    using track_values_undefined [where ?'t = unit and tr = ?tr and name = "''buf''"
        and vs = "[None, None, Some 3]" and c = "(=)" and i = 2] h pf
    by simp
  from h pf run A B C show ?thesis by blast
qed


section \<open>Properties of the phases\<close>

text \<open>
  C2. The phase of a generator only moves forward through \<open>Created\<close>, \<open>InputsSet\<close>,
  \<open>GenerateCalled\<close>, \<open>ScheduleCalled\<close>. Advancing from \<open>Created\<close> straight to
  \<open>GenerateCalled\<close> succeeds, advancing from \<open>InputsSet\<close> straight to \<open>ScheduleCalled\<close>
  fails, and an advance that succeeds sets the phase asked for, which is strictly later
  than the phase before. The advances that succeed are exactly the four listed.
\<close>

theorem advance_phase_forward:
  "(phase g = Created \<longrightarrow> advance_phase g GenerateCalled = Inr (g\<lparr>phase := GenerateCalled\<rparr>)) \<and>
   (phase g = InputsSet \<longrightarrow> advance_phase g ScheduleCalled = Inl (InternalError [])) \<and>
   (advance_phase g new_phase = Inr g' \<longrightarrow>
      g' = g\<lparr>phase := new_phase\<rparr> \<and> phase_value (phase g) < phase_value (phase g') \<and>
      (phase g, new_phase) \<in> {(Created, InputsSet), (Created, GenerateCalled),
                               (InputsSet, GenerateCalled), (GenerateCalled, ScheduleCalled)}) \<and>
   ((phase g, new_phase) \<in> {(Created, InputsSet), (Created, GenerateCalled),
                             (InputsSet, GenerateCalled), (GenerateCalled, ScheduleCalled)} \<longrightarrow>
      advance_phase g new_phase = Inr (g\<lparr>phase := new_phase\<rparr>))"
  by (cases new_phase; cases "phase g") auto

theorem advance_phase_forward_witness:
  "phase tester = Created \<and>
   advance_phase tester GenerateCalled = Inr (tester\<lparr>phase := GenerateCalled\<rparr>) \<and>
   phase (tester\<lparr>phase := InputsSet\<rparr>) = InputsSet \<and>
   advance_phase (tester\<lparr>phase := InputsSet\<rparr>) ScheduleCalled = Inl (InternalError []) \<and>
   advance_phase (tester\<lparr>phase := GenerateCalled\<rparr>) ScheduleCalled
     = Inr (tester\<lparr>phase := ScheduleCalled\<rparr>) \<and>
   phase_value (phase (tester\<lparr>phase := GenerateCalled\<rparr>))
     < phase_value (phase (tester\<lparr>phase := ScheduleCalled\<rparr>))"
proof -
  let ?inp = "tester\<lparr>phase := InputsSet\<rparr>"
  let ?gen = "tester\<lparr>phase := GenerateCalled\<rparr>"
  let ?sch = "tester\<lparr>phase := ScheduleCalled\<rparr>"
  have c: "phase tester = Created" by (simp add: tester_def)
  have 1: "advance_phase tester GenerateCalled = Inr ?gen"
    using advance_phase_forward [where g = tester and new_phase = GenerateCalled and g' = ?gen] c
    by blast
  have i: "phase ?inp = InputsSet" by simp
  have 2: "advance_phase ?inp ScheduleCalled = Inl (InternalError [])"
    using advance_phase_forward [where g = ?inp and new_phase = GenerateCalled and g' = ?gen] i
    by blast
  have m: "(phase ?gen, ScheduleCalled) \<in> {(Created, InputsSet), (Created, GenerateCalled),
                             (InputsSet, GenerateCalled), (GenerateCalled, ScheduleCalled)}"
    by simp
  have u: "?gen\<lparr>phase := ScheduleCalled\<rparr> = ?sch" by simp
  have 3: "advance_phase ?gen ScheduleCalled = Inr ?sch"
    using advance_phase_forward [where g = ?gen and new_phase = ScheduleCalled and g' = ?sch] m u
    by metis
  have 4: "phase_value (phase ?gen) < phase_value (phase ?sch)"
    using advance_phase_forward [where g = ?gen and new_phase = ScheduleCalled and g' = ?sch] 3
    by blast
  from c 1 i 2 3 4 show ?thesis by blast
qed

lemma output_writable_iff:
  "(output_check_value_writable out = Inr ()) =
   (\<exists>g. gio_generator out = Some g \<and> phase g = GenerateCalled)"
  by (cases "gio_generator out") (simp_all add: output_check_value_writable_def)

lemma param_writable_iff:
  "gp_generator p = Some g \<Longrightarrow>
   (check_value_writable p = Inr ()) = (phase_value (phase g) < phase_value GenerateCalled)"
  by (simp add: check_value_writable_def)

lemma param_writable_unowned:
  "gp_generator p = None \<Longrightarrow> check_value_writable p = Inr ()"
  by (simp add: check_value_writable_def)

lemma param_readable_iff:
  "(check_value_readable p = Inr ()) =
   (gp_name p = ''target'' \<or> gp_name p = ''auto_schedule'' \<or> gp_name p = ''machine_params'' \<or>
    (\<exists>g. gp_generator p = Some g \<and> phase_value GenerateCalled \<le> phase_value (phase g)))"
  by (cases "gp_generator p") (simp_all add: check_value_readable_def)

text \<open>
  C7. Writing the value of an output succeeds only when the phase of its generator is
  exactly \<open>GenerateCalled\<close>. Writing the value of a generator param of a generator succeeds
  only when the phase is strictly before \<open>GenerateCalled\<close> (a param that belongs to no
  generator yet is writable). Reading the value of a generator param fails before
  \<open>GenerateCalled\<close>, except for \<open>target\<close>, \<open>auto_schedule\<close> and \<open>machine_params\<close>, which are
  readable always.
\<close>

theorem value_phase_checks:
  "(output_check_value_writable out = Inr () \<longleftrightarrow>
      (\<exists>g. gio_generator out = Some g \<and> phase g = GenerateCalled)) \<and>
   (gp_generator p = Some g \<longrightarrow>
      (check_value_writable p = Inr () \<longleftrightarrow> phase_value (phase g) < phase_value GenerateCalled)) \<and>
   (gp_generator p = None \<longrightarrow> check_value_writable p = Inr ()) \<and>
   (check_value_readable p = Inr () \<longleftrightarrow>
      gp_name p = ''target'' \<or> gp_name p = ''auto_schedule'' \<or> gp_name p = ''machine_params'' \<or>
      (\<exists>g. gp_generator p = Some g \<and> phase_value GenerateCalled \<le> phase_value (phase g)))"
  using output_writable_iff [of out] param_writable_iff [of p g] param_writable_unowned [of p]
    param_readable_iff [of p]
  by blast


theorem value_phase_checks_witness:
  "gp_generator \<lparr>gp_name = ''gp0'', gp_generator = Some tester, gp_synthetic = None\<rparr> = Some tester \<and>
   phase_value (phase tester) < phase_value GenerateCalled \<and>
   check_value_writable \<lparr>gp_name = ''gp0'', gp_generator = Some tester, gp_synthetic = None\<rparr> = Inr () \<and>
   check_value_readable \<lparr>gp_name = ''gp0'', gp_generator = Some tester, gp_synthetic = None\<rparr> \<noteq> Inr () \<and>
   check_value_readable \<lparr>gp_name = ''target'', gp_generator = Some tester, gp_synthetic = None\<rparr> = Inr () \<and>
   check_value_writable
     \<lparr>gp_name = ''gp0'', gp_generator = Some (tester\<lparr>phase := GenerateCalled\<rparr>), gp_synthetic = None\<rparr>
     \<noteq> Inr () \<and>
   check_value_writable
     \<lparr>gp_name = ''gp0'', gp_generator = (None :: (int, string) generator_base option),
      gp_synthetic = None\<rparr> = Inr () \<and>
   output_check_value_writable
     \<lparr>gio_array_size = 1, gio_name = ''output'', gio_kind = Function, gio_types = [''int32''],
      gio_dims = 1, gio_funcs = [], gio_exprs = [],
      gio_generator = Some (tester\<lparr>phase := GenerateCalled\<rparr>),
      gio_is_array = False, gio_input_or_output = ''Output''\<rparr> = Inr () \<and>
   output_check_value_writable
     \<lparr>gio_array_size = 1, gio_name = ''output'', gio_kind = Function, gio_types = [''int32''],
      gio_dims = 1, gio_funcs = [], gio_exprs = [],
      gio_generator = Some (tester\<lparr>phase := ScheduleCalled\<rparr>),
      gio_is_array = False, gio_input_or_output = ''Output''\<rparr> \<noteq> Inr ()"
proof -
  let ?gen = "tester\<lparr>phase := GenerateCalled\<rparr>"
  let ?sch = "tester\<lparr>phase := ScheduleCalled\<rparr>"
  let ?gp0 = "\<lparr>gp_name = ''gp0'', gp_generator = Some tester, gp_synthetic = None\<rparr>"
  let ?target = "\<lparr>gp_name = ''target'', gp_generator = Some tester, gp_synthetic = None\<rparr>"
  let ?late = "\<lparr>gp_name = ''gp0'', gp_generator = Some ?gen, gp_synthetic = None\<rparr>"
  let ?free = "\<lparr>gp_name = ''gp0'', gp_generator = (None :: (int, string) generator_base option),
      gp_synthetic = None\<rparr>"
  let ?og = "\<lparr>gio_array_size = 1, gio_name = ''output'', gio_kind = Function, gio_types = [''int32''],
      gio_dims = 1, gio_funcs = [], gio_exprs = ([] :: int option list),
      gio_generator = Some ?gen,
      gio_is_array = False, gio_input_or_output = ''Output''\<rparr>"
  let ?os = "\<lparr>gio_array_size = 1, gio_name = ''output'', gio_kind = Function, gio_types = [''int32''],
      gio_dims = 1, gio_funcs = [], gio_exprs = ([] :: int option list),
      gio_generator = Some ?sch,
      gio_is_array = False, gio_input_or_output = ''Output''\<rparr>"
  have c: "phase tester = Created" by (simp add: tester_def)
  have 1: "gp_generator ?gp0 = Some tester" by simp
  have 2: "phase_value (phase tester) < phase_value GenerateCalled" using c by simp
  have 3: "check_value_writable ?gp0 = Inr ()"
    using value_phase_checks [where out = ?og and p = ?gp0 and g = tester] 1 2 by blast
  have n4: "gp_name ?gp0 = ''gp0''" "gp_generator ?gp0 = Some tester"
       "\<not> phase_value GenerateCalled \<le> phase_value (phase tester)"
    using c by simp_all
  have 4: "check_value_readable ?gp0 \<noteq> Inr ()"
  proof
    assume "check_value_readable ?gp0 = Inr ()"
    with value_phase_checks [where out = ?og and p = ?gp0 and g = tester]
    have "gp_name ?gp0 = ''target'' \<or> gp_name ?gp0 = ''auto_schedule'' \<or>
          gp_name ?gp0 = ''machine_params'' \<or>
          (\<exists>g. gp_generator ?gp0 = Some g \<and> phase_value GenerateCalled \<le> phase_value (phase g))"
      by blast
    with n4 show False by simp
  qed
  have n5: "gp_name ?target = ''target''" by simp
  have 5: "check_value_readable ?target = Inr ()"
    using value_phase_checks [where out = ?og and p = ?target and g = tester] n5 by blast
  have n6: "gp_generator ?late = Some ?gen" "\<not> phase_value (phase ?gen) < phase_value GenerateCalled"
    by simp_all
  have 6: "check_value_writable ?late \<noteq> Inr ()"
    using value_phase_checks [where out = ?og and p = ?late and g = ?gen] n6 by blast
  have n7: "gp_generator ?free = None" by simp
  have 7: "check_value_writable ?free = Inr ()"
    using value_phase_checks [where out = ?og and p = ?free and g = tester] n7 by blast
  have n8: "gio_generator ?og = Some ?gen" "phase ?gen = GenerateCalled" by simp_all
  have 8: "output_check_value_writable ?og = Inr ()"
    using value_phase_checks [where out = ?og and p = ?free and g = tester] n8 by blast
  have n9: "gio_generator ?os = Some ?sch" "phase ?sch \<noteq> GenerateCalled" by simp_all
  have 9: "output_check_value_writable ?os \<noteq> Inr ()"
  proof
    assume "output_check_value_writable ?os = Inr ()"
    with value_phase_checks [where out = ?os and p = ?free and g = tester]
    have "\<exists>g. gio_generator ?os = Some g \<and> phase g = GenerateCalled" by blast
    with n9 show False by simp
  qed
  from 1 2 3 4 5 6 7 8 9 show ?thesis by blast
qed

section \<open>Properties of the inputs and outputs\<close>

lemma check_matching_types_loop_equal:
  assumes "\<forall>j. i \<le> j \<and> j < length t \<longrightarrow> ts ! j = t ! j"
  shows "check_matching_types_loop n ts t i = (Inr () :: ('e, 't) error + unit)"
  using assms
proof (induction "length t - i" arbitrary: i)
  case 0
  then show ?case by (subst check_matching_types_loop.simps) simp
next
  case (Suc d)
  then have il: "i < length t" by simp
  with Suc.prems have eq: "ts ! i = t ! i" by simp
  have "check_matching_types_loop n ts t (Suc i) = (Inr () :: ('e, 't) error + unit)"
    using Suc.prems Suc.hyps(2) by (intro Suc.hyps(1)) auto
  with il eq show ?case by (subst check_matching_types_loop.simps) simp
qed

lemma check_matching_types_loop_first_mismatch:
  assumes "i \<le> k" and "k < length t" and "ts ! k \<noteq> t ! k"
    and "\<forall>j. i \<le> j \<and> j < k \<longrightarrow> ts ! j = t ! j"
  shows "check_matching_types_loop n ts t i =
         (Inl (UserError [S ''Type mismatch for '', S n, S '': expected '', T (ts ! k),
                          S '' saw '', T (t ! k)]) :: ('e, 't) error + unit)"
  using assms
proof (induction "k - i" arbitrary: i)
  case 0
  then have "i = k" by simp
  with 0 show ?case by (subst check_matching_types_loop.simps) simp
next
  case (Suc d)
  then have ik: "i < k" and il: "i < length t" by auto
  with Suc.prems have eq: "ts ! i = t ! i" by simp
  have "check_matching_types_loop n ts t (Suc i) =
         (Inl (UserError [S ''Type mismatch for '', S n, S '': expected '', T (ts ! k),
                          S '' saw '', T (t ! k)]) :: ('e, 't) error + unit)"
    using Suc.prems Suc.hyps(2) ik by (intro Suc.hyps(1)) auto
  with il eq show ?case by (subst check_matching_types_loop.simps) simp
qed

lemma check_matching_types_adopt:
  "\<not> types_defined g \<Longrightarrow> check_matching_types g t = Inr (g\<lparr>gio_types := t\<rparr>)"
  by (simp add: check_matching_types_def)

lemma check_matching_types_same:
  "types_defined g \<Longrightarrow> check_matching_types g (gio_types g) = Inr g"
  by (simp add: check_matching_types_def check_matching_types_loop_equal)

lemma check_matching_types_count:
  "types_defined g \<Longrightarrow> length (gio_types g) \<noteq> length t \<Longrightarrow>
   check_matching_types g t =
     Inl (UserError [S ''Type mismatch for '', S (gio_name g), S '': expected '',
                     N (int (length (gio_types g))), S '' types but saw '', N (int (length t))])"
  by (simp add: check_matching_types_def)

lemma check_matching_types_differ:
  fixes g :: "('e, 't, 'g) gio_base"
  assumes "types_defined g" and "length (gio_types g) = length t" and "t \<noteq> gio_types g"
  shows "\<exists>k<length t. gio_types g ! k \<noteq> t ! k \<and>
           check_matching_types g t =
             Inl (UserError [S ''Type mismatch for '', S (gio_name g), S '': expected '',
                             T (gio_types g ! k), S '' saw '', T (t ! k)])"
proof -
  define P where "P j \<longleftrightarrow> j < length t \<and> gio_types g ! j \<noteq> t ! j" for j
  from assms(2,3) have "\<exists>j. P j" unfolding P_def by (metis nth_equalityI)
  then obtain j0 where "P j0" ..
  define k where "k = (LEAST j. P j)"
  have Pk: "P k" unfolding k_def using \<open>P j0\<close> by (rule LeastI)
  have before: "\<forall>j. 0 \<le> j \<and> j < k \<longrightarrow> gio_types g ! j = t ! j"
  proof (intro allI impI)
    fix j assume j: "0 \<le> j \<and> j < k"
    then have "\<not> P j" unfolding k_def using not_less_Least by blast
    moreover from j Pk have "j < length t" by (simp add: P_def)
    ultimately show "gio_types g ! j = t ! j" by (simp add: P_def)
  qed
  have "check_matching_types_loop (gio_name g) (gio_types g) t 0 =
         (Inl (UserError [S ''Type mismatch for '', S (gio_name g), S '': expected '',
                          T (gio_types g ! k), S '' saw '', T (t ! k)]) :: ('e, 't) error + unit)"
    using Pk before by (intro check_matching_types_loop_first_mismatch) (auto simp: P_def)
  with assms(1,2) have "check_matching_types g t =
             Inl (UserError [S ''Type mismatch for '', S (gio_name g), S '': expected '',
                             T (gio_types g ! k), S '' saw '', T (t ! k)])"
    by (simp add: check_matching_types_def)
  with Pk show ?thesis unfolding P_def by blast
qed

lemma types_infer:
  assumes "\<not> types_defined g" and "gio_funcs g = [f]" and "func_defined f"
    and "func_output_types f \<noteq> []"
  shows "types g = Inr (func_output_types f, g\<lparr>gio_types := func_output_types f\<rparr>)"
  using assms by (simp add: types_def check_matching_types_adopt types_defined_def)

lemma dims_infer:
  assumes "\<not> dims_defined g" and "gio_funcs g = [f]" and "func_defined f"
    and "0 \<le> func_dimensions f" and "gio_array_size g = 1" and "gio_exprs g = []"
  shows "dims g = Inr (func_dimensions f, g\<lparr>gio_dims := func_dimensions f\<rparr>)"
  using assms
  by (simp add: dims_def funcs_def array_size_def array_size_defined_def check_matching_dims_def
      dims_defined_def)

text \<open>A negative array size other than \<open>-1\<close> is read as a large size.\<close>

lemma array_size_negative:
  "array_size (tester_output\<lparr>gio_array_size := -2\<rparr>) = Inr 18446744073709551614"
  by (simp add: array_size_def array_size_defined_def)

text \<open>
  C3. An input or output whose types or dimensionality are still unset adopts those of a
  value observed through \<open>check_matching_types\<close> or \<open>check_matching_dims\<close>, and \<open>types\<close>
  and \<open>dims\<close> adopt them from the one defined \<open>Func\<close> bound, which fixes them (with
  more or fewer than one \<open>Func\<close> bound \<open>types\<close> fails). Once they are fixed, a value with
  the same types or dimensionality passes and changes nothing, and a value that differs
  fails with a message that names what was expected and what was seen: the two numbers
  of types when these differ, else the two types at the first position that differs, or
  the two dimensionalities.
\<close>

theorem types_dims_inference:
  fixes g :: "('e, 't, 'g) gio_base"
  shows
  "(\<not> types_defined g \<and> t \<noteq> [] \<longrightarrow>
      check_matching_types g t = Inr (g\<lparr>gio_types := t\<rparr>) \<and> types_defined (g\<lparr>gio_types := t\<rparr>)) \<and>
   (\<not> types_defined g \<and> gio_funcs g = [f] \<and> func_defined f \<and> func_output_types f \<noteq> [] \<longrightarrow>
      types g = Inr (func_output_types f, g\<lparr>gio_types := func_output_types f\<rparr>)) \<and>
   (\<not> types_defined g \<and> length (gio_funcs g) \<noteq> 1 \<longrightarrow> (\<exists>m. types g = Inl (UserError m))) \<and>
   (types_defined g \<and> t = gio_types g \<longrightarrow> check_matching_types g t = Inr g) \<and>
   (types_defined g \<and> length t \<noteq> length (gio_types g) \<longrightarrow>
      check_matching_types g t =
        Inl (UserError [S ''Type mismatch for '', S (gio_name g), S '': expected '',
                        N (int (length (gio_types g))), S '' types but saw '', N (int (length t))])) \<and>
   (types_defined g \<and> length t = length (gio_types g) \<and> t \<noteq> gio_types g \<longrightarrow>
      (\<exists>k<length t. gio_types g ! k \<noteq> t ! k \<and>
         check_matching_types g t =
           Inl (UserError [S ''Type mismatch for '', S (gio_name g), S '': expected '',
                           T (gio_types g ! k), S '' saw '', T (t ! k)]))) \<and>
   (\<not> dims_defined g \<and> 0 \<le> d \<longrightarrow>
      check_matching_dims g d = Inr (g\<lparr>gio_dims := d\<rparr>) \<and> dims_defined (g\<lparr>gio_dims := d\<rparr>)) \<and>
   (\<not> dims_defined g \<and> gio_funcs g = [f] \<and> func_defined f \<and> 0 \<le> func_dimensions f \<and>
    gio_array_size g = 1 \<and> gio_exprs g = [] \<longrightarrow>
      dims g = Inr (func_dimensions f, g\<lparr>gio_dims := func_dimensions f\<rparr>)) \<and>
   (dims_defined g \<and> 0 \<le> d \<and> d = gio_dims g \<longrightarrow> check_matching_dims g d = Inr g) \<and>
   (dims_defined g \<and> 0 \<le> d \<and> d \<noteq> gio_dims g \<longrightarrow>
      check_matching_dims g d =
        Inl (UserError [S ''Dimensions mismatch for '', S (gio_name g), S '': expected '',
                        N (gio_dims g), S '' saw '', N d]))"
proof (intro conjI)
  show "\<not> types_defined g \<and> t \<noteq> [] \<longrightarrow>
      check_matching_types g t = Inr (g\<lparr>gio_types := t\<rparr>) \<and> types_defined (g\<lparr>gio_types := t\<rparr>)"
    by (simp add: check_matching_types_adopt types_defined_def)
  show "\<not> types_defined g \<and> gio_funcs g = [f] \<and> func_defined f \<and> func_output_types f \<noteq> [] \<longrightarrow>
      types g = Inr (func_output_types f, g\<lparr>gio_types := func_output_types f\<rparr>)"
    using types_infer [of g f] by blast
  show "\<not> types_defined g \<and> length (gio_funcs g) \<noteq> 1 \<longrightarrow> (\<exists>m. types g = Inl (UserError m))"
    by (simp add: types_def)
  show "types_defined g \<and> t = gio_types g \<longrightarrow> check_matching_types g t = Inr g"
    using check_matching_types_same [of g] by blast
  show "types_defined g \<and> length t \<noteq> length (gio_types g) \<longrightarrow>
      check_matching_types g t =
        Inl (UserError [S ''Type mismatch for '', S (gio_name g), S '': expected '',
                        N (int (length (gio_types g))), S '' types but saw '', N (int (length t))])"
    using check_matching_types_count [of g t] by metis
  show "types_defined g \<and> length t = length (gio_types g) \<and> t \<noteq> gio_types g \<longrightarrow>
      (\<exists>k<length t. gio_types g ! k \<noteq> t ! k \<and>
         check_matching_types g t =
           Inl (UserError [S ''Type mismatch for '', S (gio_name g), S '': expected '',
                           T (gio_types g ! k), S '' saw '', T (t ! k)]))"
    using check_matching_types_differ [of g t] by metis
  show "\<not> dims_defined g \<and> 0 \<le> d \<longrightarrow>
      check_matching_dims g d = Inr (g\<lparr>gio_dims := d\<rparr>) \<and> dims_defined (g\<lparr>gio_dims := d\<rparr>)"
    by (auto simp: check_matching_dims_def dims_defined_def)
  show "\<not> dims_defined g \<and> gio_funcs g = [f] \<and> func_defined f \<and> 0 \<le> func_dimensions f \<and>
    gio_array_size g = 1 \<and> gio_exprs g = [] \<longrightarrow>
      dims g = Inr (func_dimensions f, g\<lparr>gio_dims := func_dimensions f\<rparr>)"
    using dims_infer [of g f] by blast
  show "dims_defined g \<and> 0 \<le> d \<and> d = gio_dims g \<longrightarrow> check_matching_dims g d = Inr g"
    by (simp add: check_matching_dims_def)
  show "dims_defined g \<and> 0 \<le> d \<and> d \<noteq> gio_dims g \<longrightarrow>
      check_matching_dims g d =
        Inl (UserError [S ''Dimensions mismatch for '', S (gio_name g), S '': expected '',
                        N (gio_dims g), S '' saw '', N d])"
    by (auto simp: check_matching_dims_def)
qed


theorem types_dims_inference_witness:
  "\<not> types_defined (tester_output\<lparr>gio_types := []\<rparr>) \<and>
   check_matching_types (tester_output\<lparr>gio_types := []\<rparr>) [''int32'']
     = Inr (tester_output\<lparr>gio_types := [''int32'']\<rparr>) \<and>
   types (tester_output\<lparr>gio_types := [],
            gio_funcs := [\<lparr>func_defined = True, func_output_types = [''int32''], func_dimensions = 1\<rparr>]\<rparr>)
     = Inr ([''int32''],
            tester_output\<lparr>gio_types := [''int32''],
              gio_funcs := [\<lparr>func_defined = True, func_output_types = [''int32''], func_dimensions = 1\<rparr>]\<rparr>) \<and>
   (\<exists>m. types (tester_output\<lparr>gio_types := []\<rparr>) = Inl (UserError m)) \<and>
   types_defined tester_output \<and>
   check_matching_types tester_output [''int32''] = Inr tester_output \<and>
   check_matching_types tester_output [''int32'', ''float32'']
     = Inl (UserError [S ''Type mismatch for '', S ''output'', S '': expected '', N 1,
                       S '' types but saw '', N 2]) \<and>
   (\<exists>k<1. check_matching_types tester_output [''float32'']
            = Inl (UserError [S ''Type mismatch for '', S ''output'', S '': expected '',
                              T ([''int32''] ! k), S '' saw '', T ([''float32''] ! k)])) \<and>
   \<not> dims_defined (tester_output\<lparr>gio_dims := -1\<rparr>) \<and>
   check_matching_dims (tester_output\<lparr>gio_dims := -1\<rparr>) 2 = Inr (tester_output\<lparr>gio_dims := 2\<rparr>) \<and>
   dims (tester_output\<lparr>gio_dims := -1,
           gio_funcs := [\<lparr>func_defined = True, func_output_types = [''int32''], func_dimensions = 1\<rparr>]\<rparr>)
     = Inr (1, tester_output\<lparr>gio_dims := 1,
                 gio_funcs := [\<lparr>func_defined = True, func_output_types = [''int32''], func_dimensions = 1\<rparr>]\<rparr>) \<and>
   dims_defined tester_output \<and>
   check_matching_dims tester_output 1 = Inr tester_output \<and>
   check_matching_dims tester_output 2
     = Inl (UserError [S ''Dimensions mismatch for '', S ''output'', S '': expected '', N 1,
                       S '' saw '', N 2])"
proof -
  let ?f = "\<lparr>func_defined = True, func_output_types = [''int32''], func_dimensions = 1\<rparr>"
  let ?u = "tester_output\<lparr>gio_types := []\<rparr>"
  let ?uf = "tester_output\<lparr>gio_types := [], gio_funcs := [?f]\<rparr>"
  let ?d = "tester_output\<lparr>gio_dims := -1\<rparr>"
  let ?df = "tester_output\<lparr>gio_dims := -1, gio_funcs := [?f]\<rparr>"
  note T = types_dims_inference
  have nt: "\<not> types_defined ?u" "\<not> types_defined ?uf" by (simp_all add: types_defined_def)
  have td: "types_defined tester_output" by (simp add: types_defined_def tester_output_def)
  have nd: "\<not> dims_defined ?d" "\<not> dims_defined ?df" by (simp_all add: dims_defined_def)
  have dd: "dims_defined tester_output" by (simp add: dims_defined_def tester_output_def)
  have flds: "gio_types tester_output = [''int32'']" "gio_name tester_output = ''output''"
    "gio_dims tester_output = 1" "gio_funcs tester_output = []" "gio_array_size tester_output = 1"
    "gio_exprs tester_output = []"
    by (simp_all add: tester_output_def)
  have 1: "check_matching_types ?u [''int32''] = Inr (tester_output\<lparr>gio_types := [''int32'']\<rparr>)"
    using T [where g = ?u and t = "[''int32'']" and f = ?f and d = 1] nt by simp
  have 2: "types ?uf = Inr ([''int32''], tester_output\<lparr>gio_types := [''int32''], gio_funcs := [?f]\<rparr>)"
    using T [where g = ?uf and t = "[''int32'']" and f = ?f and d = 1] nt by simp
  have 3: "\<exists>m. types ?u = Inl (UserError m)"
    using T [where g = ?u and t = "[''int32'']" and f = ?f and d = 1] nt flds by simp
  have 4: "check_matching_types tester_output [''int32''] = Inr tester_output"
    using T [where g = tester_output and t = "[''int32'']" and f = ?f and d = 1] td flds by simp
  have 5: "check_matching_types tester_output [''int32'', ''float32'']
     = Inl (UserError [S ''Type mismatch for '', S ''output'', S '': expected '', N 1,
                       S '' types but saw '', N 2])"
    using T [where g = tester_output and t = "[''int32'', ''float32'']" and f = ?f and d = 1] td flds
    by simp
  have 6: "\<exists>k<1. check_matching_types tester_output [''float32'']
            = Inl (UserError [S ''Type mismatch for '', S ''output'', S '': expected '',
                              T ([''int32''] ! k), S '' saw '', T ([''float32''] ! k)])"
    using T [where g = tester_output and t = "[''float32'']" and f = ?f and d = 1] td flds
    by simp
  have 7: "check_matching_dims ?d 2 = Inr (tester_output\<lparr>gio_dims := 2\<rparr>)"
    using T [where g = ?d and t = "[''int32'']" and f = ?f and d = 2] nd by simp
  have 8: "dims ?df = Inr (1, tester_output\<lparr>gio_dims := 1, gio_funcs := [?f]\<rparr>)"
    using T [where g = ?df and t = "[''int32'']" and f = ?f and d = 2] nd flds by simp
  have 9: "check_matching_dims tester_output 1 = Inr tester_output"
    using T [where g = tester_output and t = "[''int32'']" and f = ?f and d = 1] dd flds by simp
  have 10: "check_matching_dims tester_output 2
     = Inl (UserError [S ''Dimensions mismatch for '', S ''output'', S '': expected '', N 1,
                       S '' saw '', N 2])"
    using T [where g = tester_output and t = "[''int32'']" and f = ?f and d = 2] dd flds by simp
  from nt(1) 1 2 3 td 4 5 6 nd(1) 7 8 dd 9 10 show ?thesis by blast
qed

section \<open>Properties of the generator registry\<close>

lemma map_of_map_assign: "map_of (map_assign k v xs) = (map_of xs)(k \<mapsto> v)"
  by (induction xs) (auto simp: fun_eq_iff)

lemma registered_iff: "(name \<in> set (enumerate_names factories)) = (map_of factories name \<noteq> None)"
  by (simp add: enumerate_names_def map_of_eq_None_iff)

lemma create_missing:
  "map_of factories name = None \<Longrightarrow>
   create name ctx factories =
     Inl (UserError ([S ''Generator not found: '', S name, S ''\<newline>'', S ''Did you mean:\<newline>'']
                     @ concat (map (\<lambda>n. [S ''    '', S n, S ''\<newline>'']) (enumerate_names factories))))"
  by (simp add: create_def enumerate_names_def comp_def)

lemma create_found:
  "map_of factories name = Some f \<Longrightarrow>
   create name ctx factories =
     (case f ctx of None \<Rightarrow> Inl (InternalError []) | Some g \<Rightarrow> Inr g)"
  by (simp add: create_def)

text \<open>
  C4. For a name absent from the registry, \<open>create\<close> fails with a message that lists
  every name registered at that moment. For a registered name it calls the factory
  registered under it on the context and returns the generator that the factory made;
  it never returns a null pointer, since a factory that returns one fails the internal
  assertion.
\<close>

theorem create_spec:
  fixes factories :: "('c, 'g) factories"
  shows
  "(name \<notin> set (enumerate_names factories) \<longrightarrow>
      create name ctx factories =
        (Inl (UserError ([S ''Generator not found: '', S name, S ''\<newline>'', S ''Did you mean:\<newline>'']
                         @ concat (map (\<lambda>n. [S ''    '', S n, S ''\<newline>''])
                                      (enumerate_names factories))))
           :: ('e, 't) error + 'g)) \<and>
   (name \<in> set (enumerate_names factories) \<longrightarrow>
      (\<exists>f. map_of factories name = Some f \<and>
           (create name ctx factories :: ('e, 't) error + 'g) =
             (case f ctx of None \<Rightarrow> Inl (InternalError []) | Some g \<Rightarrow> Inr g))) \<and>
   (create name ctx factories = (Inr g :: ('e, 't) error + 'g) \<longrightarrow>
      (\<exists>f. map_of factories name = Some f \<and> f ctx = Some g))"
proof (intro conjI)
  show "name \<notin> set (enumerate_names factories) \<longrightarrow>
      create name ctx factories =
        (Inl (UserError ([S ''Generator not found: '', S name, S ''\<newline>'', S ''Did you mean:\<newline>'']
                         @ concat (map (\<lambda>n. [S ''    '', S n, S ''\<newline>''])
                                      (enumerate_names factories))))
           :: ('e, 't) error + 'g)"
    by (simp add: registered_iff create_missing)
  show "name \<in> set (enumerate_names factories) \<longrightarrow>
      (\<exists>f. map_of factories name = Some f \<and>
           (create name ctx factories :: ('e, 't) error + 'g) =
             (case f ctx of None \<Rightarrow> Inl (InternalError []) | Some g \<Rightarrow> Inr g))"
    by (auto simp: registered_iff create_found)
  show "create name ctx factories = (Inr g :: ('e, 't) error + 'g) \<longrightarrow>
      (\<exists>f. map_of factories name = Some f \<and> f ctx = Some g)"
    by (auto simp: create_def split: option.splits)
qed

lemma valid_foo: "is_valid_name ''foo''"
  by code_simp

theorem create_spec_witness:
  "''bar'' \<notin> set (enumerate_names [(''foo'', Some :: nat \<Rightarrow> nat option)]) \<and>
   create ''bar'' (7::nat) [(''foo'', Some)] =
     (Inl (UserError [S ''Generator not found: '', S ''bar'', S ''\<newline>'', S ''Did you mean:\<newline>'',
                      S ''    '', S ''foo'', S ''\<newline>'']) :: (unit, unit) error + nat) \<and>
   ''foo'' \<in> set (enumerate_names [(''foo'', Some :: nat \<Rightarrow> nat option)]) \<and>
   create ''foo'' (7::nat) [(''foo'', Some)] = (Inr 7 :: (unit, unit) error + nat)"
proof -
  let ?r = "[(''foo'', Some :: nat \<Rightarrow> nat option)]"
  note C = create_spec [where ?'e = unit and ?'t = unit and factories = ?r and ctx = 7 and g = 7]
  have a: "''bar'' \<notin> set (enumerate_names ?r)" by (simp add: enumerate_names_def)
  have b: "''foo'' \<in> set (enumerate_names ?r)" by (simp add: enumerate_names_def)
  have 1: "create ''bar'' (7::nat) ?r =
     (Inl (UserError [S ''Generator not found: '', S ''bar'', S ''\<newline>'', S ''Did you mean:\<newline>'',
                      S ''    '', S ''foo'', S ''\<newline>'']) :: (unit, unit) error + nat)"
    using C [where name = "''bar''"] a by (simp add: enumerate_names_def)
  have 2: "create ''foo'' (7::nat) ?r = (Inr 7 :: (unit, unit) error + nat)"
    using C [where name = "''foo''"] b by auto
  from a 1 b 2 show ?thesis by blast
qed

text \<open>
  C5, as amended. \<open>register_factory\<close> fails with a user error when the name is not a
  valid identifier. When the name is valid and a factory is already registered under
  it, it fails the internal assertion: a duplicate name is an internal error of the
  framework, not a user error. Otherwise the factory is registered under the name.
\<close>

theorem register_factory_spec:
  fixes factories :: "('c, 'g) factories"
  shows
  "(\<not> is_valid_name name \<longrightarrow>
      register_factory name f factories =
        (Inl (UserError [S ''Invalid Generator name: '', S name]) :: ('e, 't) error + ('c, 'g) factories)) \<and>
   (is_valid_name name \<and> name \<in> set (enumerate_names factories) \<longrightarrow>
      register_factory name f factories =
        (Inl (InternalError [S ''Duplicate Generator name: '', S name])
           :: ('e, 't) error + ('c, 'g) factories)) \<and>
   (is_valid_name name \<and> name \<notin> set (enumerate_names factories) \<longrightarrow>
      register_factory name f factories =
        (Inr (map_assign name f factories) :: ('e, 't) error + ('c, 'g) factories) \<and>
      map_of (map_assign name f factories) = (map_of factories)(name \<mapsto> f))"
  by (simp add: register_factory_def registered_iff map_of_map_assign)

theorem register_factory_spec_witness:
  "\<not> is_valid_name ''_x'' \<and>
   register_factory ''_x'' Some [(''foo'', Some)] =
     (Inl (UserError [S ''Invalid Generator name: '', S ''_x''])
        :: (unit, unit) error + (nat, nat) factories) \<and>
   is_valid_name ''foo'' \<and> ''foo'' \<in> set (enumerate_names [(''foo'', Some :: nat \<Rightarrow> nat option)]) \<and>
   register_factory ''foo'' Some [(''foo'', Some)] =
     (Inl (InternalError [S ''Duplicate Generator name: '', S ''foo''])
        :: (unit, unit) error + (nat, nat) factories) \<and>
   ''foo'' \<notin> set (enumerate_names ([] :: (nat, nat) factories)) \<and>
   register_factory ''foo'' Some [] =
     (Inr [(''foo'', Some)] :: (unit, unit) error + (nat, nat) factories)"
proof -
  let ?r = "[(''foo'', Some :: nat \<Rightarrow> nat option)]"
  note R = register_factory_spec [where ?'e = unit and ?'t = unit and f = "Some :: nat \<Rightarrow> nat option"]
  have v: "\<not> is_valid_name ''_x''" by code_simp
  have a: "''foo'' \<in> set (enumerate_names ?r)" by (simp add: enumerate_names_def)
  have b: "''foo'' \<notin> set (enumerate_names ([] :: (nat, nat) factories))"
    by (simp add: enumerate_names_def)
  have 1: "register_factory ''_x'' Some ?r =
     (Inl (UserError [S ''Invalid Generator name: '', S ''_x''])
        :: (unit, unit) error + (nat, nat) factories)"
    using R [where name = "''_x''" and factories = ?r] v by blast
  have 2: "register_factory ''foo'' Some ?r =
     (Inl (InternalError [S ''Duplicate Generator name: '', S ''foo''])
        :: (unit, unit) error + (nat, nat) factories)"
    using R [where name = "''foo''" and factories = ?r] valid_foo a by blast
  have 3: "register_factory ''foo'' Some [] =
     (Inr [(''foo'', Some)] :: (unit, unit) error + (nat, nat) factories)"
    using R [where name = "''foo''" and factories = "[]"] valid_foo b by simp
  from v 1 valid_foo a 2 b 3 show ?thesis by blast
qed

theorem register_duplicate_counterexample:
  "register_factory ''foo'' Some [] =
     (Inr [(''foo'', Some)] :: (unit, unit) error + (nat, nat) factories) \<and>
   register_factory ''foo'' Some [(''foo'', Some)] =
     (Inl (InternalError [S ''Duplicate Generator name: '', S ''foo''])
        :: (unit, unit) error + (nat, nat) factories) \<and>
   register_factory ''foo'' Some [(''foo'', Some)] \<noteq>
     (Inl (UserError [S ''Duplicate Generator name: '', S ''foo''])
        :: (unit, unit) error + (nat, nat) factories)"
  using valid_foo by (simp add: register_factory_def)

section \<open>Properties of the schema builder\<close>

lemma scan_filter_params_length:
  "scan_filter_params vf (names, fps) = (Inr (names', fps') :: ('e, 't) error + _) \<Longrightarrow>
   length fps' = length fps + length vf"
proof (induction vf arbitrary: names fps)
  case Nil
  then show ?case by simp
next
  case (Cons v vf)
  then show ?case by (auto split: option.splits if_splits)
qed

lemma scan_gios_length:
  "scan_gios what generator vi (names, gios, syn) = (Inr (names', gios', syn') :: ('e, 't) error + _) \<Longrightarrow>
   length gios' = length gios + length vi"
proof (induction vi arbitrary: names gios syn)
  case Nil
  then show ?case by simp
next
  case (Cons v vi)
  then show ?case by (auto simp: Let_def split: option.splits if_splits)
qed

lemma ParamInfo_mixed_inputs:
  assumes "scan_filter_params vf ({}, []) = (Inr (na, fps) :: ('e, 't) error + _)"
    and "scan_gios ''Input'' generator vi (na, [], []) = (Inr (nb, ins, syna) :: ('e, 't) error + _)"
    and "scan_gios ''Output'' generator vo (nb, [], syna) = (Inr (nc, outs, synb) :: ('e, 't) error + _)"
    and "vf \<noteq> []" and "vi \<noteq> []"
  shows "ParamInfo generator vf vi vo vg =
         (Inl (UserError [S ''Input<> may not be used with Param<> or ImageParam in Generators.\<newline>''])
            :: ('e, 't) error + ('e, 't) param_info)"
proof -
  from scan_filter_params_length [OF assms(1)] assms(4) have "length fps > 0" by simp
  moreover from scan_gios_length [OF assms(2)] assms(5) have "length ins > 0" by simp
  ultimately show ?thesis using assms(1-3) by (simp add: ParamInfo_def)
qed

lemma ParamInfo_mixed_outputs:
  assumes "scan_filter_params vf ({}, []) = (Inr (na, fps) :: ('e, 't) error + _)"
    and "scan_gios ''Input'' generator vi (na, [], []) = (Inr (nb, ins, syna) :: ('e, 't) error + _)"
    and "scan_gios ''Output'' generator vo (nb, [], syna) = (Inr (nc, outs, synb) :: ('e, 't) error + _)"
    and "vf \<noteq> []" and "vi = []" and "vo \<noteq> []"
  shows "ParamInfo generator vf vi vo vg =
         (Inl (UserError [S ''Output<> may not be used with Param<> or ImageParam in Generators.\<newline>''])
            :: ('e, 't) error + ('e, 't) param_info)"
proof -
  from scan_filter_params_length [OF assms(1)] assms(4) have "length fps > 0" by simp
  moreover from scan_gios_length [OF assms(2)] assms(5) have "length ins = 0" by simp
  moreover from scan_gios_length [OF assms(3)] assms(6) have "length outs > 0" by simp
  ultimately show ?thesis using assms(1-3) by (simp add: ParamInfo_def)
qed

lemma ParamInfo_success:
  assumes "ParamInfo generator vf vi vo vg = (Inr pi :: ('e, 't) error + ('e, 't) param_info)"
  shows "length (filter_params pi) = length vf \<and> length (filter_inputs pi) = length vi \<and>
         length (filter_outputs pi) = length vo \<and>
         (filter_params pi = [] \<or> (filter_inputs pi = [] \<and> filter_outputs pi = []))"
proof -
  from assms obtain na fps where 1: "scan_filter_params vf ({}, []) = (Inr (na, fps) :: ('e, 't) error + _)"
    by (auto simp: ParamInfo_def split: sum.splits)
  from assms 1 obtain nb ins syna where
    2: "scan_gios ''Input'' generator vi (na, [], []) = (Inr (nb, ins, syna) :: ('e, 't) error + _)"
    by (auto simp: ParamInfo_def split: sum.splits)
  from assms 1 2 obtain nc outs synb where
    3: "scan_gios ''Output'' generator vo (nb, [], syna) = (Inr (nc, outs, synb) :: ('e, 't) error + _)"
    by (auto simp: ParamInfo_def split: sum.splits)
  from assms 1 2 3 have ok: "\<not> (length fps > 0 \<and> length ins > 0)" "\<not> (length fps > 0 \<and> length outs > 0)"
    by (auto simp: ParamInfo_def split: sum.splits if_splits)
  from assms 1 2 3 ok have f: "filter_params pi = fps" "filter_inputs pi = ins" "filter_outputs pi = outs"
    by (auto simp: ParamInfo_def Let_def split: sum.splits if_splits)
  from scan_filter_params_length [OF 1] scan_gios_length [OF 2] scan_gios_length [OF 3] f ok
  show ?thesis by auto
qed

lemma tester_names_valid:
  "is_valid_name ''p''" "is_valid_name ''input''" "is_valid_name ''output''"
  "is_valid_name ''target''" "is_valid_name ''auto_schedule''" "is_valid_name ''machine_params''"
  "is_valid_name ''gp0''" "is_valid_name ''gp1''" "is_valid_name ''gp2''"
  by code_simp+

lemma tester_ParamInfo:
  "ParamInfo 1 [] [Some tester_input] [Some tester_output] (member_generator_params tester)
     = Inr tester_schema"
  by (simp add: ParamInfo_def tester_def tester_input_def tester_output_def tester_param_def
      tester_schema_def tester_generator_params_def tester_names_valid add_synthetic_params_def
      own_def is_synthetic_param_def types_defined_def dims_defined_def array_size_defined_def
      Let_def)

text \<open>
  C8. While the schema is built, members that hold at least one legacy param together
  with at least one input, or together with at least one output, make the builder fail;
  when every member passes the checks of its own, the failure is the user error that
  says inputs, or outputs, may not be used with legacy params. So a schema that the
  builder returns holds every member found and never both declaration styles.
\<close>

theorem ParamInfo_styles:
  "(ParamInfo generator vf vi vo vg = (Inr pi :: ('e, 't) error + ('e, 't) param_info) \<longrightarrow>
      length (filter_params pi) = length vf \<and> length (filter_inputs pi) = length vi \<and>
      length (filter_outputs pi) = length vo \<and>
      (filter_params pi = [] \<or> (filter_inputs pi = [] \<and> filter_outputs pi = []))) \<and>
   (vf \<noteq> [] \<and> (vi \<noteq> [] \<or> vo \<noteq> []) \<longrightarrow>
      (\<exists>e. ParamInfo generator vf vi vo vg = (Inl e :: ('e, 't) error + ('e, 't) param_info))) \<and>
   (scan_filter_params vf ({}, []) = (Inr (na, fps) :: ('e, 't) error + _) \<and>
    scan_gios ''Input'' generator vi (na, [], []) = (Inr (nb, ins, syna) :: ('e, 't) error + _) \<and>
    scan_gios ''Output'' generator vo (nb, [], syna) = (Inr (nc, outs, synb) :: ('e, 't) error + _) \<and>
    vf \<noteq> [] \<and> vi \<noteq> [] \<longrightarrow>
      ParamInfo generator vf vi vo vg =
        (Inl (UserError [S ''Input<> may not be used with Param<> or ImageParam in Generators.\<newline>''])
           :: ('e, 't) error + ('e, 't) param_info)) \<and>
   (scan_filter_params vf ({}, []) = (Inr (na, fps) :: ('e, 't) error + _) \<and>
    scan_gios ''Input'' generator vi (na, [], []) = (Inr (nb, ins, syna) :: ('e, 't) error + _) \<and>
    scan_gios ''Output'' generator vo (nb, [], syna) = (Inr (nc, outs, synb) :: ('e, 't) error + _) \<and>
    vf \<noteq> [] \<and> vi = [] \<and> vo \<noteq> [] \<longrightarrow>
      ParamInfo generator vf vi vo vg =
        (Inl (UserError [S ''Output<> may not be used with Param<> or ImageParam in Generators.\<newline>''])
           :: ('e, 't) error + ('e, 't) param_info))"
proof (intro conjI)
  show "ParamInfo generator vf vi vo vg = (Inr pi :: ('e, 't) error + ('e, 't) param_info) \<longrightarrow>
      length (filter_params pi) = length vf \<and> length (filter_inputs pi) = length vi \<and>
      length (filter_outputs pi) = length vo \<and>
      (filter_params pi = [] \<or> (filter_inputs pi = [] \<and> filter_outputs pi = []))"
    using ParamInfo_success by blast
  show "vf \<noteq> [] \<and> (vi \<noteq> [] \<or> vo \<noteq> []) \<longrightarrow>
      (\<exists>e. ParamInfo generator vf vi vo vg = (Inl e :: ('e, 't) error + ('e, 't) param_info))"
  proof
    assume a: "vf \<noteq> [] \<and> (vi \<noteq> [] \<or> vo \<noteq> [])"
    show "\<exists>e. ParamInfo generator vf vi vo vg = (Inl e :: ('e, 't) error + ('e, 't) param_info)"
    proof (cases "ParamInfo generator vf vi vo vg :: ('e, 't) error + ('e, 't) param_info")
      case (Inl e)
      then show ?thesis by blast
    next
      case (Inr p)
      from ParamInfo_success [OF Inr] a show ?thesis by auto
    qed
  qed
  show "scan_filter_params vf ({}, []) = (Inr (na, fps) :: ('e, 't) error + _) \<and>
    scan_gios ''Input'' generator vi (na, [], []) = (Inr (nb, ins, syna) :: ('e, 't) error + _) \<and>
    scan_gios ''Output'' generator vo (nb, [], syna) = (Inr (nc, outs, synb) :: ('e, 't) error + _) \<and>
    vf \<noteq> [] \<and> vi \<noteq> [] \<longrightarrow>
      ParamInfo generator vf vi vo vg =
        (Inl (UserError [S ''Input<> may not be used with Param<> or ImageParam in Generators.\<newline>''])
           :: ('e, 't) error + ('e, 't) param_info)"
    using ParamInfo_mixed_inputs by blast
  show "scan_filter_params vf ({}, []) = (Inr (na, fps) :: ('e, 't) error + _) \<and>
    scan_gios ''Input'' generator vi (na, [], []) = (Inr (nb, ins, syna) :: ('e, 't) error + _) \<and>
    scan_gios ''Output'' generator vo (nb, [], syna) = (Inr (nc, outs, synb) :: ('e, 't) error + _) \<and>
    vf \<noteq> [] \<and> vi = [] \<and> vo \<noteq> [] \<longrightarrow>
      ParamInfo generator vf vi vo vg =
        (Inl (UserError [S ''Output<> may not be used with Param<> or ImageParam in Generators.\<newline>''])
           :: ('e, 't) error + ('e, 't) param_info)"
    using ParamInfo_mixed_outputs by blast
qed


theorem ParamInfo_styles_witness:
  "ParamInfo 1 [] [Some tester_input] [Some tester_output] (member_generator_params tester)
     = Inr tester_schema \<and>
   length (filter_inputs tester_schema) = 1 \<and> length (filter_outputs tester_schema) = 1 \<and>
   filter_params tester_schema = [] \<and>
   (\<exists>e. ParamInfo 1 [Some legacy_param] [Some tester_input] [Some tester_output]
           (member_generator_params tester) = Inl e) \<and>
   ParamInfo 1 [Some legacy_param] [Some tester_input] [] []
     = Inl (UserError [S ''Input<> may not be used with Param<> or ImageParam in Generators.\<newline>'']) \<and>
   ParamInfo 1 [Some legacy_param] [] [Some tester_output] []
     = Inl (UserError [S ''Output<> may not be used with Param<> or ImageParam in Generators.\<newline>''])"
proof -
  let ?in = "tester_input\<lparr>gio_generator := Some 1\<rparr>"
  let ?out = "tester_output\<lparr>gio_generator := Some 1\<rparr>"
  let ?syn = "add_synthetic_params ?out"
  have s1: "scan_filter_params [Some legacy_param] ({}, [])
            = (Inr ({''p''}, [legacy_param]) :: (int, string) error + _)"
    by (simp add: legacy_param_def tester_names_valid)
  have s2: "scan_gios ''Input'' 1 [Some tester_input] ({''p''}, [], [])
            = (Inr ({''input'', ''p''}, [?in], []) :: (int, string) error + _)"
    by (simp add: tester_input_def tester_names_valid add_synthetic_params_def Let_def)
  have s3: "scan_gios ''Output'' 1 [] ({''input'', ''p''}, [], [])
            = (Inr ({''input'', ''p''}, [], []) :: (int, string) error + _)"
    by simp
  have s4: "scan_gios ''Input'' 1 ([] :: (int, string, nat) gio_base option list) ({''p''}, [], [])
            = (Inr ({''p''}, [], []) :: (int, string) error + _)"
    by simp
  have s5: "scan_gios ''Output'' 1 [Some tester_output] ({''p''}, [], [])
            = (Inr ({''output'', ''p''}, [?out], ?syn) :: (int, string) error + _)"
    by (simp add: tester_output_def tester_names_valid Let_def)
  note P = ParamInfo_styles [where ?'e = int and ?'t = string and generator = 1]
  have 1: "length (filter_inputs tester_schema) = 1 \<and> length (filter_outputs tester_schema) = 1 \<and>
           filter_params tester_schema = []"
    using P [where vf = "[]" and vi = "[Some tester_input]" and vo = "[Some tester_output]"
               and vg = "member_generator_params tester" and pi = tester_schema] tester_ParamInfo
    by simp
  have 2: "\<exists>e. ParamInfo 1 [Some legacy_param] [Some tester_input] [Some tester_output]
           (member_generator_params tester) = Inl e"
    using P [where vf = "[Some legacy_param]" and vi = "[Some tester_input]"
               and vo = "[Some tester_output]" and vg = "member_generator_params tester"]
    by simp
  have 3: "ParamInfo 1 [Some legacy_param] [Some tester_input] [] []
     = Inl (UserError [S ''Input<> may not be used with Param<> or ImageParam in Generators.\<newline>''])"
    using P [where vf = "[Some legacy_param]" and vi = "[Some tester_input]" and vo = "[]"
               and vg = "[]" and na = "{''p''}" and fps = "[legacy_param]"
               and nb = "{''input'', ''p''}" and ins = "[?in]" and syna = "[]"
               and nc = "{''input'', ''p''}" and outs = "[]" and synb = "[]"] s1 s2 s3
    by simp
  have 4: "ParamInfo 1 [Some legacy_param] [] [Some tester_output] []
     = Inl (UserError [S ''Output<> may not be used with Param<> or ImageParam in Generators.\<newline>''])"
    using P [where vf = "[Some legacy_param]" and vi = "[]" and vo = "[Some tester_output]"
               and vg = "[]" and na = "{''p''}" and fps = "[legacy_param]"
               and nb = "{''p''}" and ins = "[]" and syna = "[]"
               and nc = "{''output'', ''p''}" and outs = "[?out]" and synb = ?syn] s1 s4 s5
    by simp
  from tester_ParamInfo 1 2 3 4 show ?thesis by blast
qed

section \<open>Properties of the schema emission\<close>

lemma param_info_keeps:
  "param_info g = Inr (pi, g') \<Longrightarrow>
   phase g' = phase g \<and> generator_registered_name g' = generator_registered_name g \<and>
   generator_stub_name g' = generator_stub_name g"
  by (auto simp: param_info_def split: option.splits sum.splits)

lemma advance_to_scheduled:
  "advance_phase g GenerateCalled = Inr ga \<Longrightarrow> advance_phase ga ScheduleCalled = Inr gb \<Longrightarrow>
   gb = g\<lparr>phase := ScheduleCalled\<rparr>"
  by (auto split: if_splits)

lemma emit_cpp_stub_leaves:
  assumes "emit_cpp_stub sp g p = Inr (em, g')"
  shows "phase g' = ScheduleCalled \<and> generator_registered_name g' \<noteq> [] \<and>
         generator_stub_name g' \<noteq> []"
proof -
  from assms have names: "generator_registered_name g \<noteq> []" "generator_stub_name g \<noteq> []"
    by (auto simp: emit_cpp_stub_def split: if_splits)
  with assms obtain ga where a: "advance_phase g GenerateCalled = Inr ga"
    by (auto simp: emit_cpp_stub_def split: sum.splits)
  with assms names obtain gb where b: "advance_phase ga ScheduleCalled = Inr gb"
    by (auto simp: emit_cpp_stub_def split: sum.splits)
  with assms names a obtain pi where c: "param_info gb = Inr (pi, g')"
    by (auto simp: emit_cpp_stub_def split: sum.splits)
  from advance_to_scheduled [OF a b] param_info_keeps [OF c] names show ?thesis by simp
qed

lemma emit_yaml_leaves:
  assumes "emit_yaml sp g p = Inr (em, g')"
  shows "phase g' = ScheduleCalled \<and> generator_registered_name g' \<noteq> [] \<and>
         generator_stub_name g' \<noteq> []"
proof -
  from assms have names: "generator_registered_name g \<noteq> []" "generator_stub_name g \<noteq> []"
    by (auto simp: emit_yaml_def split: if_splits)
  with assms obtain ga where a: "advance_phase g GenerateCalled = Inr ga"
    by (auto simp: emit_yaml_def split: sum.splits)
  with assms names obtain gb where b: "advance_phase ga ScheduleCalled = Inr gb"
    by (auto simp: emit_yaml_def split: sum.splits)
  with assms names a obtain pi where c: "param_info gb = Inr (pi, g')"
    by (auto simp: emit_yaml_def split: sum.splits)
  from advance_to_scheduled [OF a b] param_info_keeps [OF c] names show ?thesis by simp
qed

lemma emit_when_scheduled:
  assumes "phase g = ScheduleCalled" and "generator_registered_name g \<noteq> []"
    and "generator_stub_name g \<noteq> []"
  shows "emit_cpp_stub sp g q = Inl (InternalError [])" and "emit_yaml sp g q = Inl (InternalError [])"
  using assms by (simp_all add: emit_cpp_stub_def emit_yaml_def)

text \<open>
  C6, as the code has it. An emission that succeeds leaves the generator in the phase
  \<open>ScheduleCalled\<close>, and every further emission by that generator, of the wrapper or of
  the metadata, fails the internal assertion of \<open>advance_phase\<close> before a file is opened.
  So the second of two emissions does not write the same output again: it writes none.
\<close>

theorem emit_second_fails:
  "emit_cpp_stub sp g p = Inr (em, g') \<or> emit_yaml sp g p = Inr (em, g') \<longrightarrow>
     phase g' = ScheduleCalled \<and>
     emit_cpp_stub sq g' q = Inl (InternalError []) \<and> emit_yaml sq g' q = Inl (InternalError [])"
  using emit_cpp_stub_leaves [of sp g p em g'] emit_yaml_leaves [of sp g p em g']
    emit_when_scheduled [of g' sq q]
  by blast

lemma tester_split_stub: "tester_split ''Tester'' ''::'' = [''Tester'']"
  by code_simp

lemma tester_emit_cpp_stub:
  "emit_cpp_stub tester_split tester ''tester.stub.h'' =
     Inr (\<lparr>em_kind = StubEmitter, em_file = ''tester.stub.h'',
           em_generator_registered_name = ''tester'', em_generator_stub_name = ''Tester'',
           em_class_name = ''Tester'', em_namespaces = [],
           em_generator_params = drop 5 tester_generator_params,
           em_inputs = [tester_input\<lparr>gio_generator := Some 1\<rparr>],
           em_outputs = [tester_output\<lparr>gio_generator := Some 1\<rparr>]\<rparr>,
          tester\<lparr>phase := ScheduleCalled, param_info_ptr := Some tester_schema\<rparr>)"
proof -
  have c: "param_info (tester\<lparr>phase := ScheduleCalled\<rparr>)
           = Inr (tester_schema, tester\<lparr>phase := ScheduleCalled, param_info_ptr := Some tester_schema\<rparr>)"
    using tester_ParamInfo by (simp add: param_info_def tester_def)
  have d: "select_generator_params (generator_params tester_schema) = drop 5 tester_generator_params"
    by (simp add: tester_schema_def tester_generator_params_def is_synthetic_param_def)
  have e: "generator_registered_name tester = ''tester''" "generator_stub_name tester = ''Tester''"
    by (simp_all add: tester_def)
  have f: "filter_inputs tester_schema = [tester_input\<lparr>gio_generator := Some 1\<rparr>]"
    "filter_outputs tester_schema = [tester_output\<lparr>gio_generator := Some 1\<rparr>]"
    by (simp_all add: tester_schema_def)
  have g: "phase tester = Created" by (simp add: tester_def)
  show ?thesis by (simp add: emit_cpp_stub_def EmitterBase_def tester_split_stub g c d e f)
qed

theorem emit_second_fails_witness:
  "emit_cpp_stub tester_split tester ''tester.stub.h'' =
     Inr (\<lparr>em_kind = StubEmitter, em_file = ''tester.stub.h'',
           em_generator_registered_name = ''tester'', em_generator_stub_name = ''Tester'',
           em_class_name = ''Tester'', em_namespaces = [],
           em_generator_params = drop 5 tester_generator_params,
           em_inputs = [tester_input\<lparr>gio_generator := Some 1\<rparr>],
           em_outputs = [tester_output\<lparr>gio_generator := Some 1\<rparr>]\<rparr>,
          tester\<lparr>phase := ScheduleCalled, param_info_ptr := Some tester_schema\<rparr>) \<and>
   emit_cpp_stub tester_split
     (tester\<lparr>phase := ScheduleCalled, param_info_ptr := Some tester_schema\<rparr>)
     ''tester.stub.h'' = Inl (InternalError []) \<and>
   emit_yaml tester_split
     (tester\<lparr>phase := ScheduleCalled, param_info_ptr := Some tester_schema\<rparr>)
     ''tester.yaml'' = Inl (InternalError [])"
  using tester_emit_cpp_stub
    emit_second_fails [where sp = tester_split and sq = tester_split and g = tester
      and p = "''tester.stub.h''"
      and g' = "tester\<lparr>phase := ScheduleCalled, param_info_ptr := Some tester_schema\<rparr>"
      and q = "''tester.stub.h''"]
    emit_second_fails [where sp = tester_split and sq = tester_split and g = tester
      and p = "''tester.stub.h''"
      and g' = "tester\<lparr>phase := ScheduleCalled, param_info_ptr := Some tester_schema\<rparr>"
      and q = "''tester.yaml''"]
  by blast

lemma tester_split_rooted: "tester_split ''::Foo'' ''::'' = ['''', ''Foo'']"
  by code_simp

text \<open>A stub name that is one class name behind a leading \<open>::\<close> fails the second
  assertion of the constructor.\<close>

lemma EmitterBase_rooted_name:
  "EmitterBase tester_split kind dest ''foo'' ''::Foo'' gps ins outs = Inl (InternalError [])"
  by (simp add: EmitterBase_def tester_split_rooted)

section \<open>Properties of the identifier validator\<close>

lemma letter_alpha: "is_letter c \<Longrightarrow> is_alpha c"
  unfolding is_letter_def is_alpha_def less_eq_char_def by auto

lemma alpha_letter: assumes "is_alpha c" shows "is_letter c"
proof -
  let ?n = "of_char c :: nat"
  from assms have "?n \<in> {65..<91} \<or> ?n \<in> {97..<123}"
    unfolding is_alpha_def less_eq_char_def by auto
  then have "?n \<in> set [65..<91] \<or> ?n \<in> set [97..<123]"
    by (simp only: set_upt)
  then have "?n \<in> set (map of_char ''ABCDEFGHIJKLMNOPQRSTUVWXYZabcdefghijklmnopqrstuvwxyz'')"
    unfolding upt_rec_numeral by (simp del: set_map) 
  then have "c \<in> set ''ABCDEFGHIJKLMNOPQRSTUVWXYZabcdefghijklmnopqrstuvwxyz''"
    by (simp only: set_map inj_image_mem_iff [OF inj_of_char])
  then show ?thesis by (simp only: is_letter_def)
qed

lemma digit_range: "is_digit c \<Longrightarrow> CHR ''0'' \<le> c \<and> c \<le> CHR ''9''"
  unfolding is_digit_def less_eq_char_def by auto

lemma range_digit: assumes "CHR ''0'' \<le> c \<and> c \<le> CHR ''9''" shows "is_digit c"
proof -
  let ?n = "of_char c :: nat"
  from assms have "?n \<in> {48..<58}"
    unfolding less_eq_char_def by auto
  then have "?n \<in> set [48..<58]"
    by (simp only: set_upt)
  then have "?n \<in> set (map of_char ''0123456789'')"
    unfolding upt_rec_numeral by (simp del: set_map) 
  then have "c \<in> set ''0123456789''"
    by (simp only: set_map inj_image_mem_iff [OF inj_of_char])
  then show ?thesis by (simp only: is_digit_def)
qed

lemma loop_char: "is_valid_name_loop n i =
   (\<forall>j. i \<le> j \<and> j < length n \<longrightarrow> is_alnum (n ! j) \<and> \<not> (n ! j = CHR ''_'' \<and> n ! (j - 1) = CHR ''_''))"
proof (induction n i rule: is_valid_name_loop.induct)
  case (1 n i)
  show ?case
  proof (cases "i < length n")
    case False
    then show ?thesis by (subst is_valid_name_loop.simps) auto
  next
    case True
    show ?thesis
    proof (cases "\<not> is_alnum (n ! i) \<or> (n ! i = CHR ''_'' \<and> n ! (i - 1) = CHR ''_'')")
      case bad: True
      then have "is_valid_name_loop n i = False" using True by (subst is_valid_name_loop.simps) auto
      moreover have "\<not> (\<forall>j. i \<le> j \<and> j < length n \<longrightarrow> is_alnum (n ! j) \<and> \<not> (n ! j = CHR ''_'' \<and> n ! (j - 1) = CHR ''_''))"
        using bad True by (metis order_refl)
      ultimately show ?thesis by simp
    next
      case good: False
      then have "is_valid_name_loop n i = is_valid_name_loop n (Suc i)" using True by (subst is_valid_name_loop.simps) auto
      also have "\<dots> = (\<forall>j. Suc i \<le> j \<and> j < length n \<longrightarrow> is_alnum (n ! j) \<and> \<not> (n ! j = CHR ''_'' \<and> n ! (j - 1) = CHR ''_''))"
        using 1 True good by blast
      also have "\<dots> = (\<forall>j. i \<le> j \<and> j < length n \<longrightarrow> is_alnum (n ! j) \<and> \<not> (n ! j = CHR ''_'' \<and> n ! (j - 1) = CHR ''_''))"
        using good by (metis Suc_leD Suc_leI le_neq_implies_less)
      finally show ?thesis .
    qed
  qed
qed


lemma alnum_spec: "is_alnum c = (is_letter c \<or> is_digit c \<or> c = CHR ''_'')"
  unfolding is_alnum_def using letter_alpha alpha_letter digit_range range_digit by blast

text \<open>
  C9. The identifier validator accepts \<open>gp0\<close> and \<open>a1\<close> and rejects the empty string,
  \<open>_x\<close>, \<open>a__b\<close> and \<open>1a\<close>. In general it accepts exactly the strings that start with
  an ASCII letter, continue with letters, digits and underscores only, and nowhere hold
  two underscores in a row: \<open>is_valid_name\<close>, the code, agrees with \<open>spec_valid_name\<close>,
  the wording of the specification, on every string.
\<close>

theorem is_valid_name_spec:
  "is_valid_name ''gp0'' \<and> is_valid_name ''a1'' \<and>
   \<not> is_valid_name '''' \<and> \<not> is_valid_name ''_x'' \<and>
   \<not> is_valid_name ''a__b'' \<and> \<not> is_valid_name ''1a'' \<and>
   is_valid_name n = spec_valid_name n"
proof -
  have ex1: "is_valid_name ''gp0''" by code_simp
  have ex2: "is_valid_name ''a1''" by code_simp
  have ex3: "\<not> is_valid_name ''''" by code_simp
  have ex4: "\<not> is_valid_name ''_x''" by code_simp
  have ex5: "\<not> is_valid_name ''a__b''" by code_simp
  have ex6: "\<not> is_valid_name ''1a''" by code_simp
  have gen: "is_valid_name n = spec_valid_name n"
  proof (cases n)
    case Nil
    then show ?thesis by (simp add: is_valid_name_def spec_valid_name_def)
  next
    case (Cons a m)
    have tl: "list_all (\<lambda>c. is_letter c \<or> is_digit c \<or> c = CHR ''_'') (tl n) =
          (\<forall>j. 1 \<le> j \<and> j < length n \<longrightarrow> is_alnum (n ! j))"
    proof -
      have "list_all is_alnum m = (\<forall>j. 1 \<le> j \<and> j < length n \<longrightarrow> is_alnum (n ! j))"
      proof
        assume a: "list_all is_alnum m"
        show "\<forall>j. 1 \<le> j \<and> j < length n \<longrightarrow> is_alnum (n ! j)"
        proof (intro allI impI)
          fix j assume j: "1 \<le> j \<and> j < length n"
          then obtain k where k: "j = Suc k" by (cases j) auto
          with j Cons have "k < length m" by simp
          with a have "is_alnum (m ! k)" by (simp add: list_all_length)
          with k Cons show "is_alnum (n ! j)" by simp
        qed
      next
        assume a: "\<forall>j. 1 \<le> j \<and> j < length n \<longrightarrow> is_alnum (n ! j)"
        show "list_all is_alnum m"
          unfolding list_all_length
        proof (intro allI impI)
          fix k assume "k < length m"
          then have "1 \<le> Suc k \<and> Suc k < length n" using Cons by simp
          with a have "is_alnum (n ! Suc k)" by blast
          with Cons show "is_alnum (m ! k)" by simp
        qed
      qed
      then show ?thesis using Cons by (simp add: alnum_spec [symmetric])
    qed
    have us: "(\<forall>j. 1 \<le> j \<and> j < length n \<longrightarrow> \<not> (n ! j = CHR ''_'' \<and> n ! (j - 1) = CHR ''_'')) =
          (\<not> (\<exists>i. Suc i < length n \<and> n ! i = CHR ''_'' \<and> n ! Suc i = CHR ''_''))"
    proof
      assume a: "\<forall>j. 1 \<le> j \<and> j < length n \<longrightarrow> \<not> (n ! j = CHR ''_'' \<and> n ! (j - 1) = CHR ''_'')"
      show "\<not> (\<exists>i. Suc i < length n \<and> n ! i = CHR ''_'' \<and> n ! Suc i = CHR ''_'')"
      proof
        assume "\<exists>i. Suc i < length n \<and> n ! i = CHR ''_'' \<and> n ! Suc i = CHR ''_''"
        then obtain i where i: "Suc i < length n" "n ! i = CHR ''_''" "n ! Suc i = CHR ''_''" by blast
        from i(1) have "1 \<le> Suc i \<and> Suc i < length n" by simp
        with a have "\<not> (n ! Suc i = CHR ''_'' \<and> n ! (Suc i - 1) = CHR ''_'')" by blast
        with i show False by simp
      qed
    next
      assume a: "\<not> (\<exists>i. Suc i < length n \<and> n ! i = CHR ''_'' \<and> n ! Suc i = CHR ''_'')"
      show "\<forall>j. 1 \<le> j \<and> j < length n \<longrightarrow> \<not> (n ! j = CHR ''_'' \<and> n ! (j - 1) = CHR ''_'')"
      proof (intro allI impI)
        fix j assume j: "1 \<le> j \<and> j < length n"
        then obtain k where k: "j = Suc k" by (cases j) auto
        with a j show "\<not> (n ! j = CHR ''_'' \<and> n ! (j - 1) = CHR ''_'')" by auto
      qed
    qed
    have hd: "is_alpha (n ! 0) = is_letter (hd n)"
      using Cons letter_alpha alpha_letter by auto
    have "is_valid_name n = (is_letter (hd n) \<and>
          (\<forall>j. 1 \<le> j \<and> j < length n \<longrightarrow> is_alnum (n ! j) \<and> \<not> (n ! j = CHR ''_'' \<and> n ! (j - 1) = CHR ''_'')))"
      using Cons hd by (simp add: is_valid_name_def loop_char)
    also have "\<dots> = (is_letter (hd n) \<and>
          (\<forall>j. 1 \<le> j \<and> j < length n \<longrightarrow> is_alnum (n ! j)) \<and>
          (\<forall>j. 1 \<le> j \<and> j < length n \<longrightarrow> \<not> (n ! j = CHR ''_'' \<and> n ! (j - 1) = CHR ''_'')))"
      by blast
    also have "\<dots> = spec_valid_name n"
      unfolding spec_valid_name_def tl us using Cons by simp
    finally show ?thesis .
  qed
  from ex1 ex2 ex3 ex4 ex5 ex6 gen show ?thesis by blast
qed


end
